theory Spec2Isabelle
  imports Main
begin

section \<open>Data model of \<^verbatim>\<open>api/interaction.go\<close>\<close>

text \<open>
  The file under study is the interaction part of an HTTP client binding. Its operations
  take a payload, validate it on the client side and hand it to a transport. The types it
  only passes around are kept opaque; the types it inspects are spelled out.
\<close>

typedecl ContainerComponents
typedecl Attachment
typedecl Message
typedecl StringChoice
typedecl IntegerChoice
typedecl NumberChoice

subsection \<open>Slices\<close>

text \<open>
  A Go slice is either \<^verbatim>\<open>nil\<close> or a view of a backing array. Both have a length, and the
  comparison \<^verbatim>\<open>s == nil\<close> tells them apart: it is false for \<^verbatim>\<open>[]T{}\<close>, which is empty
  but not nil. The update rule for component messages depends on the difference.
\<close>

datatype 'a slice = Nil_slice | Slice "'a list"

fun elems :: "'a slice \<Rightarrow> 'a list" where
  "elems Nil_slice = []"
| "elems (Slice xs) = xs"

definition len :: "'a slice \<Rightarrow> nat" where
  "len s = length (elems s)"

text \<open>
  \<^verbatim>\<open>s[i] = v\<close>. The only store of the file sits in a loop over \<^verbatim>\<open>range s\<close>, so its
  index is below \<open>len s\<close>; a nil slice has no slot to store into.
\<close>

fun slice_store :: "'a slice \<Rightarrow> nat \<Rightarrow> 'a \<Rightarrow> 'a slice" where
  "slice_store Nil_slice i v = Nil_slice"
| "slice_store (Slice xs) i v = Slice (xs[i := v])"

subsection \<open>Nullable strings\<close>

text \<open>
  \<^verbatim>\<open>option.NullableString\<close> is a pointer to a pair of a value and a flag. The pointer is
  \<^verbatim>\<open>nil\<close> when the field is omitted; the flag \<open>Init\<close> is false when the field is sent as
  an explicit JSON \<^verbatim>\<open>null\<close>. The declaration is outside the file; the two fields are the
  ones the file reads.
\<close>

record NullableStringData =
  Val :: string
  Init :: bool

type_synonym NullableString = "NullableStringData option"

subsection \<open>Response types\<close>

text \<open>
  \<^verbatim>\<open>InteractionResponseType\<close> is an unsigned integer; the constants are numbered from 1 by
  \<^verbatim>\<open>iota + 1\<close>, with 2 and 3 skipped. Only equality of these values is ever tested.
\<close>

type_synonym InteractionResponseType = nat

definition PongInteraction :: InteractionResponseType where
  "PongInteraction = 1"

definition MessageInteractionWithSource :: InteractionResponseType where
  "MessageInteractionWithSource = 4"

definition DeferredMessageInteractionWithSource :: InteractionResponseType where
  "DeferredMessageInteractionWithSource = 5"

definition DeferredMessageUpdate :: InteractionResponseType where
  "DeferredMessageUpdate = 6"

definition UpdateMessage :: InteractionResponseType where
  "UpdateMessage = 7"

definition AutocompleteResult :: InteractionResponseType where
  "AutocompleteResult = 8"

definition ModalResponse :: InteractionResponseType where
  "ModalResponse = 9"

subsection \<open>Payloads\<close>

text \<open>
  \<^verbatim>\<open>AutocompleteChoices\<close> is an interface with three implementing slice types; a nil
  interface value is \<open>None\<close> in the field below.
\<close>

datatype AutocompleteChoices =
    AutocompleteStringChoices "StringChoice slice"
  | AutocompleteIntegerChoices "IntegerChoice slice"
  | AutocompleteNumberChoices "NumberChoice slice"

text \<open>
  The type parameters stand for the types owned by other packages: \<open>'a\<close> for
  \<^verbatim>\<open>AllowedMentions\<close>, \<open>'e\<close> for \<^verbatim>\<open>discord.Embed\<close>, \<open>'f\<close> for \<^verbatim>\<open>sendpart.File\<close>.
  A Go pointer field is an \<open>option\<close>. The record holds the slice that the pointer
  \<^verbatim>\<open>Embeds\<close> refers to: the slice is shared with the caller, so a store through the
  pointer is visible to the caller, and each operation below returns the payload as the
  caller finds it afterwards.
\<close>

record ('a, 'e, 'f) InteractionResponseData =
  Content :: NullableString
  TTS :: bool
  Embeds :: "'e slice option"
  Components :: "ContainerComponents option"
  AllowedMentions :: "'a option"
  Flags :: nat
  Files :: "'f slice"
  Choices :: "AutocompleteChoices option"
  CustomID :: NullableString
  Title :: NullableString

record ('a, 'e, 'f) InteractionResponse =
  Type :: InteractionResponseType
  Data :: "('a, 'e, 'f) InteractionResponseData option"

record ('a, 'e, 'f) EditInteractionResponseData =
  Content :: NullableString
  Embeds :: "'e slice option"
  Components :: "ContainerComponents option"
  AllowedMentions :: "'a option"
  Attachments :: "Attachment slice option"
  Files :: "'f slice"

subsection \<open>Errors\<close>

text \<open>
  The errors the file returns. \<open>'x\<close> is the type of the error values produced by the
  collaborators (the mention policy, the embed validator, the transport).
  \<^item> \<open>ErrEmptyMessage\<close> is the package's sentinel.
  \<^item> \<open>Errorf fmt args err\<close> is \<^verbatim>\<open>fmt.Errorf(fmt, args..., err)\<close>, where the format ends in
    \<^verbatim>\<open>%w\<close> and wraps \<open>err\<close>; \<open>args\<close> are the integers printed by \<^verbatim>\<open>%d\<close>.
  \<^item> \<open>OverboundError count max thing\<close> is \<^verbatim>\<open>&discord.OverboundError{Count, Max, Thing}\<close>.
  \<^item> \<open>External err\<close> is an error of the transport, returned as it came.

  The values of the collaborators are thereby kept apart from the sentinel and from the
  errors built in this file: the transport is taken never to return \<open>ErrEmptyMessage\<close>
  itself.
\<close>

datatype 'x error =
    ErrEmptyMessage
  | Errorf string "nat list" 'x
  | OverboundError int int string
  | External 'x

subsection \<open>Requests and collaborators\<close>

text \<open>
  The three payload types implement the transport's \<^verbatim>\<open>DataWriter\<close> interface
  (\<^verbatim>\<open>NeedsMultipart\<close>, \<^verbatim>\<open>WriteMultipart\<close>).
\<close>

datatype ('a, 'e, 'f) DataWriter =
    Response "('a, 'e, 'f) InteractionResponse"
  | ResponseData "('a, 'e, 'f) InteractionResponseData"
  | EditData "('a, 'e, 'f) EditInteractionResponseData"

text \<open>
  A call into the transport, with the arguments the file passes: the payload, whether a
  destination for the decoded message is given (\<^verbatim>\<open>&msg\<close>, or \<^verbatim>\<open>nil\<close>), and the URL.
\<close>

datatype ('a, 'e, 'f) request =
    sendpart_POST "('a, 'e, 'f) DataWriter" bool string
  | sendpart_PATCH "('a, 'e, 'f) DataWriter" bool string
  | RequestJSON string string
  | FastRequest string string

text \<open>
  What the file takes from elsewhere, as parameters:
  \<^item> \<open>Endpoint\<close>, the base URL;
  \<^item> \<open>ID_String\<close>, the \<^verbatim>\<open>String()\<close> method of the identifier types (\<open>'i\<close>);
  \<^item> \<open>Verify\<close>, the method of \<^verbatim>\<open>AllowedMentions\<close>, returning an error or nil;
  \<^item> \<open>Validate\<close>, the method of \<^verbatim>\<open>*discord.Embed\<close>: it returns an error or nil and may
    rewrite its receiver, so it yields the receiver as it leaves it;
  \<^item> \<open>Length\<close>, the method of \<^verbatim>\<open>discord.Embed\<close>. Go's \<^verbatim>\<open>int\<close> is read as an integer:
    the running sum is at most 6000 before each addition and a length counts the bytes of
    strings held in memory, so the additions of the file stay far from the range's end;
  \<^item> \<open>reply\<close>, the answer of the transport to a call: the error it returns and the message
    it decodes into the destination.
\<close>

record ('a, 'e, 'f, 'x, 'i) env =
  Endpoint :: string
  ID_String :: "'i \<Rightarrow> string"
  Verify :: "'a \<Rightarrow> 'x option"
  Validate :: "'e \<Rightarrow> 'x option \<times> 'e"
  Length :: "'e \<Rightarrow> int"
  reply :: "('a, 'e, 'f) request \<Rightarrow> 'x option \<times> Message option"

text \<open>
  What a call of an operation does: the value it returns, the payload as the caller finds
  it after the call, and the calls it made into the transport, in order.
\<close>

record ('r, 'p, 'q) effect =
  ret :: 'r
  after :: 'p
  sent :: "'q list"

section \<open>The operations\<close>

definition EndpointInteractions :: "('a, 'e, 'f, 'x, 'i) env \<Rightarrow> string" where
  "EndpointInteractions c = Endpoint c @ ''interactions/''"

text \<open>
  Modelled from the spec: \<^verbatim>\<open>EndpointWebhooks\<close> is declared in another file of the package;
  the URL shapes of the specification start the webhook routes with \<^verbatim>\<open>webhooks/\<close>.
\<close>

definition EndpointWebhooks :: "('a, 'e, 'f, 'x, 'i) env \<Rightarrow> string" where
  "EndpointWebhooks c = Endpoint c @ ''webhooks/''"

subsection \<open>The embed loop\<close>

text \<open>
  The loop \<^verbatim>\<open>for i, embed := range *data.Embeds\<close> is written out four times in the
  file, with two differences: the error built when \<^verbatim>\<open>Validate\<close> fails (\<open>mk\<close>) and the
  text in the \<^verbatim>\<open>OverboundError\<close> (\<open>thing\<close>). \<open>i\<close> is the index, \<open>sm\<close> the running sum
  (\<^verbatim>\<open>sum\<close> in the source),
  \<open>s\<close> the slice; the loop returns the error, if any, and the slice as it leaves it.
  \<open>e\<close> (\<^verbatim>\<open>embed\<close> in the source) is a copy of slot \<open>i\<close>; \<^verbatim>\<open>Validate\<close> works on the copy, \<^verbatim>\<open>Length\<close> is taken
  of the validated copy, and the copy is stored back only when both checks pass.
\<close>

function embedLoop ::
  "('a, 'e, 'f, 'x, 'i) env \<Rightarrow> (nat \<Rightarrow> 'x \<Rightarrow> 'x error) \<Rightarrow> string \<Rightarrow>
     nat \<Rightarrow> int \<Rightarrow> 'e slice \<Rightarrow> 'x error option \<times> 'e slice" where
  "embedLoop c mk thing i sm s =
     (if i < len s then
        (case Validate c (elems s ! i) of
           (Some err, _) \<Rightarrow> (Some (mk i err), s)
         | (None, e) \<Rightarrow>
             (if sm + Length c e > 6000
              then (Some (OverboundError (sm + Length c e) 6000 thing), s)
              else embedLoop c mk thing (i + 1) (sm + Length c e) (slice_store s i e)))
      else (None, s))"
  by pat_completeness auto

termination embedLoop
  apply (relation "measure (\<lambda>(c, mk, thing, i, sm, s). len s - i)")
   apply simp
  apply (case_tac s)
   apply (simp_all add: len_def)
  done

subsection \<open>Encoding hooks of the payloads\<close>

definition InteractionResponseData_NeedsMultipart ::
  "('a, 'e, 'f) InteractionResponseData \<Rightarrow> bool" where
  "InteractionResponseData_NeedsMultipart d = (len (InteractionResponseData.Files d) > 0)"

definition InteractionResponse_NeedsMultipart :: "('a, 'e, 'f) InteractionResponse \<Rightarrow> bool" where
  "InteractionResponse_NeedsMultipart resp =
     (case Data resp of None \<Rightarrow> False | Some d \<Rightarrow> InteractionResponseData_NeedsMultipart d)"

definition EditInteractionResponseData_NeedsMultipart ::
  "('a, 'e, 'f) EditInteractionResponseData \<Rightarrow> bool" where
  "EditInteractionResponseData_NeedsMultipart data =
     (len (EditInteractionResponseData.Files data) > 0)"

text \<open>
  A multipart body is a sequence of parts: the form field \<^verbatim>\<open>payload_json\<close> holding the
  JSON encoding of a payload, or a file. The JSON encoder is not modelled; the part
  names the payload it encodes.
\<close>

datatype ('a, 'e, 'f) part =
    payload_json "('a, 'e, 'f) DataWriter"
  | file_part 'f

datatype ('a, 'e, 'f) body =
    JSON_body "('a, 'e, 'f) DataWriter"
  | Multipart_body "('a, 'e, 'f) part list"

text \<open>
  Modelled from the spec: \<^verbatim>\<open>sendpart.Write\<close> belongs to the package
  \<^verbatim>\<open>utils/sendpart\<close>, which is not part of the file. The specification has the payload
  JSON-encoded as one part and each file as a subsequent part, in list order.
\<close>

definition sendpart_Write ::
  "('a, 'e, 'f) DataWriter \<Rightarrow> 'f slice \<Rightarrow> ('a, 'e, 'f) part list" where
  "sendpart_Write item files = payload_json item # map file_part (elems files)"

text \<open>
  The three \<^verbatim>\<open>WriteMultipart\<close> methods. \<^verbatim>\<open>resp.Data.Files\<close> dereferences \<^verbatim>\<open>resp.Data\<close>:
  on a nil pointer the method panics, which is the result \<open>None\<close>.
\<close>

definition InteractionResponse_WriteMultipart ::
  "('a, 'e, 'f) InteractionResponse \<Rightarrow> ('a, 'e, 'f) part list option" where
  "InteractionResponse_WriteMultipart resp =
     (case Data resp of
        None \<Rightarrow> None
      | Some d \<Rightarrow> Some (sendpart_Write (Response resp) (InteractionResponseData.Files d)))"

definition InteractionResponseData_WriteMultipart ::
  "('a, 'e, 'f) InteractionResponseData \<Rightarrow> ('a, 'e, 'f) part list option" where
  "InteractionResponseData_WriteMultipart d =
     Some (sendpart_Write (ResponseData d) (InteractionResponseData.Files d))"

definition EditInteractionResponseData_WriteMultipart ::
  "('a, 'e, 'f) EditInteractionResponseData \<Rightarrow> ('a, 'e, 'f) part list option" where
  "EditInteractionResponseData_WriteMultipart data =
     Some (sendpart_Write (EditData data) (EditInteractionResponseData.Files data))"

text \<open>Method dispatch through the \<^verbatim>\<open>DataWriter\<close> interface.\<close>

fun NeedsMultipart :: "('a, 'e, 'f) DataWriter \<Rightarrow> bool" where
  "NeedsMultipart (Response resp) = InteractionResponse_NeedsMultipart resp"
| "NeedsMultipart (ResponseData d) = InteractionResponseData_NeedsMultipart d"
| "NeedsMultipart (EditData data) = EditInteractionResponseData_NeedsMultipart data"

fun WriteMultipart :: "('a, 'e, 'f) DataWriter \<Rightarrow> ('a, 'e, 'f) part list option" where
  "WriteMultipart (Response resp) = InteractionResponse_WriteMultipart resp"
| "WriteMultipart (ResponseData d) = InteractionResponseData_WriteMultipart d"
| "WriteMultipart (EditData data) = EditInteractionResponseData_WriteMultipart data"

text \<open>
  Modelled from the spec: the choice of the encoding is made inside \<^verbatim>\<open>sendpart.POST\<close> and
  \<^verbatim>\<open>sendpart.PATCH\<close>, which are not part of the file. The specification has the transport
  send a multipart body when the payload has files and a JSON body otherwise; the payload
  says which through its two hooks. \<open>None\<close> is a panic of the hook.
\<close>

definition sendpart_body :: "('a, 'e, 'f) DataWriter \<Rightarrow> ('a, 'e, 'f) body option" where
  "sendpart_body data =
     (if NeedsMultipart data then map_option Multipart_body (WriteMultipart data)
      else Some (JSON_body data))"

text \<open>The file list a payload carries; a response without data carries none.\<close>

fun files_of :: "('a, 'e, 'f) DataWriter \<Rightarrow> 'f list" where
  "files_of (Response resp) =
     (case Data resp of None \<Rightarrow> [] | Some d \<Rightarrow> elems (InteractionResponseData.Files d))"
| "files_of (ResponseData d) = elems (InteractionResponseData.Files d)"
| "files_of (EditData data) = elems (EditInteractionResponseData.Files data)"

subsection \<open>RespondInteraction\<close>

text \<open>
  The \<^verbatim>\<open>switch\<close> on the response type has two cases; every other type falls through it.
  \<open>iid\<close> is the parameter \<^verbatim>\<open>id\<close>. \<open>POST\<close> is the last statement of the function, reached
  from three places.
\<close>

definition RespondInteraction ::
  "('a, 'e, 'f, 'x, 'i) env \<Rightarrow> 'i \<Rightarrow> string \<Rightarrow> ('a, 'e, 'f) InteractionResponse \<Rightarrow>
     ('x error option, ('a, 'e, 'f) InteractionResponse, ('a, 'e, 'f) request) effect" where
  "RespondInteraction c iid token resp =
     (let POST = (\<lambda>resp'.
            let URL = EndpointInteractions c @ ID_String c iid @ ''/'' @ token @ ''/callback'';
                rq = sendpart_POST (Response resp') False URL
            in \<lparr>ret = map_option External (fst (reply c rq)), after = resp', sent = [rq]\<rparr>)
      in case Data resp of
           None \<Rightarrow> POST resp
         | Some d \<Rightarrow>
             if (if Type resp = MessageInteractionWithSource then
                   (case InteractionResponseData.Content d of
                      None \<Rightarrow> True | Some n \<Rightarrow> Val n = '''') \<and>
                   (case InteractionResponseData.Embeds d of
                      None \<Rightarrow> True | Some s \<Rightarrow> len s = 0) \<and>
                   len (InteractionResponseData.Files d) = 0
                 else if Type resp = UpdateMessage then
                   (case InteractionResponseData.Content d of
                      None \<Rightarrow> False | Some n \<Rightarrow> \<not> Init n) \<and>
                   (case InteractionResponseData.Embeds d of
                      None \<Rightarrow> False | Some s \<Rightarrow> s = Nil_slice) \<and>
                   len (InteractionResponseData.Files d) = 0
                 else False)
             then \<lparr>ret = Some ErrEmptyMessage, after = resp, sent = []\<rparr>
             else
               (case (case InteractionResponseData.AllowedMentions d of
                        None \<Rightarrow> None | Some am \<Rightarrow> Verify c am) of
                  Some err \<Rightarrow>
                    \<lparr>ret = Some (Errorf ''allowedMentions error: %w'' [] err),
                     after = resp, sent = []\<rparr>
                | None \<Rightarrow>
                    (case InteractionResponseData.Embeds d of
                       None \<Rightarrow> POST resp
                     | Some s \<Rightarrow>
                         (case embedLoop c (\<lambda>i err. Errorf ''embed error at %d: %w'' [i] err)
                                 ''sum of all text in embeds'' 0 0 s of
                            (Some err, s') \<Rightarrow>
                              \<lparr>ret = Some err,
                               after = resp\<lparr>Data :=
                                 Some (d\<lparr>InteractionResponseData.Embeds := Some s'\<rparr>)\<rparr>,
                               sent = []\<rparr>
                          | (None, s') \<Rightarrow>
                              POST (resp\<lparr>Data :=
                                Some (d\<lparr>InteractionResponseData.Embeds := Some s'\<rparr>)\<rparr>)))))"

subsection \<open>The initial response\<close>

text \<open>
  \<^verbatim>\<open>InteractionResponse\<close>, the method that fetches the initial response; the name is taken
  by the payload type. For \<^verbatim>\<open>return m, c.RequestJSON(&m, ...)\<close> the returned message is
  the one the transport decoded, as the Go compiler evaluates the call before it reads
  \<^verbatim>\<open>m\<close>.
\<close>

definition InteractionResponse_get ::
  "('a, 'e, 'f, 'x, 'i) env \<Rightarrow> 'i \<Rightarrow> string \<Rightarrow>
     (Message option \<times> 'x error option, unit, ('a, 'e, 'f) request) effect" where
  "InteractionResponse_get c appID token =
     (let rq = RequestJSON ''GET''
                 (EndpointWebhooks c @ ID_String c appID @ ''/'' @ token @ ''/messages/@original'')
      in \<lparr>ret = (snd (reply c rq), map_option External (fst (reply c rq))),
          after = (), sent = [rq]\<rparr>)"

definition EditInteractionResponse ::
  "('a, 'e, 'f, 'x, 'i) env \<Rightarrow> 'i \<Rightarrow> string \<Rightarrow> ('a, 'e, 'f) EditInteractionResponseData \<Rightarrow>
     (Message option \<times> 'x error option, ('a, 'e, 'f) EditInteractionResponseData,
      ('a, 'e, 'f) request) effect" where
  "EditInteractionResponse c appID token data =
     (let PATCH = (\<lambda>data'.
            let rq = sendpart_PATCH (EditData data') True
                       (EndpointWebhooks c @ ID_String c appID @ ''/'' @ token @
                        ''/messages/@original'')
            in \<lparr>ret = (snd (reply c rq), map_option External (fst (reply c rq))),
                after = data', sent = [rq]\<rparr>)
      in case (case EditInteractionResponseData.AllowedMentions data of
                 None \<Rightarrow> None | Some am \<Rightarrow> Verify c am) of
           Some err \<Rightarrow>
             \<lparr>ret = (None, Some (Errorf ''allowedMentions error: %w'' [] err)),
              after = data, sent = []\<rparr>
         | None \<Rightarrow>
             (case EditInteractionResponseData.Embeds data of
                None \<Rightarrow> PATCH data
              | Some s \<Rightarrow>
                  (case embedLoop c (\<lambda>i err. Errorf ''embed error: %w'' [] err)
                          ''sum of text in embeds'' 0 0 s of
                     (Some err, s') \<Rightarrow>
                       \<lparr>ret = (None, Some err),
                        after = data\<lparr>EditInteractionResponseData.Embeds := Some s'\<rparr>,
                        sent = []\<rparr>
                   | (None, s') \<Rightarrow>
                       PATCH (data\<lparr>EditInteractionResponseData.Embeds := Some s'\<rparr>))))"

definition DeleteInteractionResponse ::
  "('a, 'e, 'f, 'x, 'i) env \<Rightarrow> 'i \<Rightarrow> string \<Rightarrow>
     ('x error option, unit, ('a, 'e, 'f) request) effect" where
  "DeleteInteractionResponse c appID token =
     (let rq = FastRequest ''DELETE''
                 (EndpointWebhooks c @ ID_String c appID @ ''/'' @ token @ ''/messages/@original'')
      in \<lparr>ret = map_option External (fst (reply c rq)), after = (), sent = [rq]\<rparr>)"

subsection \<open>Follow-up messages\<close>

definition FollowUpInteraction ::
  "('a, 'e, 'f, 'x, 'i) env \<Rightarrow> 'i \<Rightarrow> string \<Rightarrow> ('a, 'e, 'f) InteractionResponseData \<Rightarrow>
     (Message option \<times> 'x error option, ('a, 'e, 'f) InteractionResponseData,
      ('a, 'e, 'f) request) effect" where
  "FollowUpInteraction c appID token data =
     (let POST = (\<lambda>data'.
            let rq = sendpart_POST (ResponseData data') True
                       (EndpointWebhooks c @ ID_String c appID @ ''/'' @ token @ ''?'')
            in \<lparr>ret = (snd (reply c rq), map_option External (fst (reply c rq))),
                after = data', sent = [rq]\<rparr>)
      in if (case InteractionResponseData.Content data of
               None \<Rightarrow> True | Some n \<Rightarrow> Val n = '''') \<and>
            (case InteractionResponseData.Embeds data of
               None \<Rightarrow> True | Some s \<Rightarrow> len s = 0) \<and>
            len (InteractionResponseData.Files data) = 0
         then \<lparr>ret = (None, Some ErrEmptyMessage), after = data, sent = []\<rparr>
         else
           (case (case InteractionResponseData.AllowedMentions data of
                    None \<Rightarrow> None | Some am \<Rightarrow> Verify c am) of
              Some err \<Rightarrow>
                \<lparr>ret = (None, Some (Errorf ''allowedMentions error: %w'' [] err)),
                 after = data, sent = []\<rparr>
            | None \<Rightarrow>
                (case InteractionResponseData.Embeds data of
                   None \<Rightarrow> POST data
                 | Some s \<Rightarrow>
                     (case embedLoop c (\<lambda>i err. Errorf ''embed error at %d: %w'' [i] err)
                             ''sum of all text in embeds'' 0 0 s of
                        (Some err, s') \<Rightarrow>
                          \<lparr>ret = (None, Some err),
                           after = data\<lparr>InteractionResponseData.Embeds := Some s'\<rparr>,
                           sent = []\<rparr>
                      | (None, s') \<Rightarrow>
                          POST (data\<lparr>InteractionResponseData.Embeds := Some s'\<rparr>)))))"

definition CreateInteractionFollowup ::
  "('a, 'e, 'f, 'x, 'i) env \<Rightarrow> 'i \<Rightarrow> string \<Rightarrow> ('a, 'e, 'f) InteractionResponseData \<Rightarrow>
     (Message option \<times> 'x error option, ('a, 'e, 'f) InteractionResponseData,
      ('a, 'e, 'f) request) effect" where
  "CreateInteractionFollowup c appID token data = FollowUpInteraction c appID token data"

definition EditInteractionFollowup ::
  "('a, 'e, 'f, 'x, 'i) env \<Rightarrow> 'i \<Rightarrow> 'i \<Rightarrow> string \<Rightarrow>
     ('a, 'e, 'f) EditInteractionResponseData \<Rightarrow>
     (Message option \<times> 'x error option, ('a, 'e, 'f) EditInteractionResponseData,
      ('a, 'e, 'f) request) effect" where
  "EditInteractionFollowup c appID messageID token data =
     (let PATCH = (\<lambda>data'.
            let rq = sendpart_PATCH (EditData data') True
                       (EndpointWebhooks c @ ID_String c appID @ ''/'' @ token @
                        ''/messages/'' @ ID_String c messageID)
            in \<lparr>ret = (snd (reply c rq), map_option External (fst (reply c rq))),
                after = data', sent = [rq]\<rparr>)
      in case (case EditInteractionResponseData.AllowedMentions data of
                 None \<Rightarrow> None | Some am \<Rightarrow> Verify c am) of
           Some err \<Rightarrow>
             \<lparr>ret = (None, Some (Errorf ''allowedMentions error: %w'' [] err)),
              after = data, sent = []\<rparr>
         | None \<Rightarrow>
             (case EditInteractionResponseData.Embeds data of
                None \<Rightarrow> PATCH data
              | Some s \<Rightarrow>
                  (case embedLoop c (\<lambda>i err. Errorf ''embed error: %w'' [] err)
                          ''sum of text in embeds'' 0 0 s of
                     (Some err, s') \<Rightarrow>
                       \<lparr>ret = (None, Some err),
                        after = data\<lparr>EditInteractionResponseData.Embeds := Some s'\<rparr>,
                        sent = []\<rparr>
                   | (None, s') \<Rightarrow>
                       PATCH (data\<lparr>EditInteractionResponseData.Embeds := Some s'\<rparr>))))"

definition DeleteInteractionFollowup ::
  "('a, 'e, 'f, 'x, 'i) env \<Rightarrow> 'i \<Rightarrow> 'i \<Rightarrow> string \<Rightarrow>
     ('x error option, unit, ('a, 'e, 'f) request) effect" where
  "DeleteInteractionFollowup c appID messageID token =
     (let rq = FastRequest ''DELETE''
                 (EndpointWebhooks c @ ID_String c appID @ ''/'' @ token @ ''/messages/'' @
                  ID_String c messageID)
      in \<lparr>ret = map_option External (fst (reply c rq)), after = (), sent = [rq]\<rparr>)"

section \<open>Notions used in the statements\<close>

subsection \<open>The embed loop as a recursion over the list\<close>

text \<open>
  The same traversal, written by recursion over the embeds still to be visited. It
  returns the error and those embeds as the loop leaves them. \<open>embedLoop_Slice\<close> below
  proves that the loop computes it.
\<close>

fun embedScan ::
  "('a, 'e, 'f, 'x, 'i) env \<Rightarrow> (nat \<Rightarrow> 'x \<Rightarrow> 'x error) \<Rightarrow> string \<Rightarrow>
     nat \<Rightarrow> int \<Rightarrow> 'e list \<Rightarrow> 'x error option \<times> 'e list" where
  "embedScan c mk thing i sm [] = (None, [])"
| "embedScan c mk thing i sm (x # xs) =
     (case Validate c x of
        (Some err, _) \<Rightarrow> (Some (mk i err), x # xs)
      | (None, e) \<Rightarrow>
          (if sm + Length c e > 6000
           then (Some (OverboundError (sm + Length c e) 6000 thing), x # xs)
           else (case embedScan c mk thing (i + 1) (sm + Length c e) xs of
                   (r, ys) \<Rightarrow> (r, e # ys))))"

text \<open>
  An embed passes its own validation; the embed as its validator leaves it; the lengths
  that the loop adds up, which are those of the validated embeds.
\<close>

definition embed_ok :: "('a, 'e, 'f, 'x, 'i) env \<Rightarrow> 'e \<Rightarrow> bool" where
  "embed_ok c e = (fst (Validate c e) = None)"

definition normalized :: "('a, 'e, 'f, 'x, 'i) env \<Rightarrow> 'e \<Rightarrow> 'e" where
  "normalized c e = snd (Validate c e)"

definition embed_lengths :: "('a, 'e, 'f, 'x, 'i) env \<Rightarrow> 'e list \<Rightarrow> int list" where
  "embed_lengths c xs = map (\<lambda>e. Length c (normalized c e)) xs"

text \<open>Every running sum of \<open>ns\<close>, started at \<open>sm\<close>, is at most 6000.\<close>

definition within_budget :: "int \<Rightarrow> int list \<Rightarrow> bool" where
  "within_budget sm ns = (\<forall>k\<le>length ns. k > 0 \<longrightarrow> sm + sum_list (take k ns) \<le> 6000)"

text \<open>
  \<open>x\<close>, coming after the embeds \<open>pre\<close>, is the first embed that takes the running sum
  over 6000: every embed up to and including \<open>x\<close> passes its own validation, every running
  sum over \<open>pre\<close> is at most 6000, and the sum with \<open>x\<close> is above 6000.
\<close>

definition pushes_over :: "('a, 'e, 'f, 'x, 'i) env \<Rightarrow> 'e list \<Rightarrow> 'e \<Rightarrow> bool" where
  "pushes_over c pre x =
     ((\<forall>e\<in>set pre. embed_ok c e) \<and> embed_ok c x \<and>
      within_budget 0 (embed_lengths c pre) \<and>
      sum_list (embed_lengths c (pre @ [x])) > 6000)"

text \<open>
  The embeds \<open>xs\<close> all pass their own validation and their lengths, none of them
  negative, add up to exactly 6000.
\<close>

definition fills_budget :: "('a, 'e, 'f, 'x, 'i) env \<Rightarrow> 'e list \<Rightarrow> bool" where
  "fills_budget c xs =
     ((\<forall>e\<in>set xs. embed_ok c e) \<and> (\<forall>n\<in>set (embed_lengths c xs). 0 \<le> n) \<and>
      sum_list (embed_lengths c xs) = 6000)"

subsection \<open>The checks, each on its own\<close>

text \<open>
  The emptiness test of a new message (\<^verbatim>\<open>MessageInteractionWithSource\<close> and the follow-up),
  the emptiness test of \<^verbatim>\<open>UpdateMessage\<close>, the test of the mention policy and the embed
  loop, as the source has them, each giving the error it would return.
\<close>

definition emptiness_new :: "('a, 'e, 'f) InteractionResponseData \<Rightarrow> 'x error option" where
  "emptiness_new d =
     (if (case InteractionResponseData.Content d of None \<Rightarrow> True | Some n \<Rightarrow> Val n = '''') \<and>
         (case InteractionResponseData.Embeds d of None \<Rightarrow> True | Some s \<Rightarrow> len s = 0) \<and>
         len (InteractionResponseData.Files d) = 0
      then Some ErrEmptyMessage else None)"

definition emptiness_update :: "('a, 'e, 'f) InteractionResponseData \<Rightarrow> 'x error option" where
  "emptiness_update d =
     (if (case InteractionResponseData.Content d of None \<Rightarrow> False | Some n \<Rightarrow> \<not> Init n) \<and>
         (case InteractionResponseData.Embeds d of None \<Rightarrow> False | Some s \<Rightarrow> s = Nil_slice) \<and>
         len (InteractionResponseData.Files d) = 0
      then Some ErrEmptyMessage else None)"

definition emptiness_of ::
  "InteractionResponseType \<Rightarrow> ('a, 'e, 'f) InteractionResponseData \<Rightarrow> 'x error option" where
  "emptiness_of t d =
     (if t = MessageInteractionWithSource then emptiness_new d
      else if t = UpdateMessage then emptiness_update d
      else None)"

definition mention_check :: "('a, 'e, 'f, 'x, 'i) env \<Rightarrow> 'a option \<Rightarrow> 'x error option" where
  "mention_check c am =
     (case am of
        None \<Rightarrow> None
      | Some m \<Rightarrow> map_option (Errorf ''allowedMentions error: %w'' []) (Verify c m))"

definition embed_check ::
  "('a, 'e, 'f, 'x, 'i) env \<Rightarrow> (nat \<Rightarrow> 'x \<Rightarrow> 'x error) \<Rightarrow> string \<Rightarrow> 'e slice option \<Rightarrow>
     'x error option" where
  "embed_check c mk thing es =
     (case es of None \<Rightarrow> None | Some s \<Rightarrow> fst (embedLoop c mk thing 0 0 s))"

text \<open>The two ways the source words the error of a failing embed.\<close>

definition embed_error_at :: "nat \<Rightarrow> 'x \<Rightarrow> 'x error" where
  "embed_error_at i err = Errorf ''embed error at %d: %w'' [i] err"

definition embed_error :: "nat \<Rightarrow> 'x \<Rightarrow> 'x error" where
  "embed_error i err = Errorf ''embed error: %w'' [] err"

text \<open>The error of the first check that fails, in the order of the list.\<close>

fun first_failure :: "'x error option list \<Rightarrow> 'x error option" where
  "first_failure [] = None"
| "first_failure (None # cs) = first_failure cs"
| "first_failure (Some e # cs) = Some e"

text \<open>The payloads as the embed loop leaves them when it runs to its end.\<close>

definition normalize_data ::
  "('a, 'e, 'f, 'x, 'i) env \<Rightarrow> ('a, 'e, 'f) InteractionResponseData \<Rightarrow>
     ('a, 'e, 'f) InteractionResponseData" where
  "normalize_data c d =
     d\<lparr>InteractionResponseData.Embeds :=
         map_option (map_slice (normalized c)) (InteractionResponseData.Embeds d)\<rparr>"

definition normalize_edit ::
  "('a, 'e, 'f, 'x, 'i) env \<Rightarrow> ('a, 'e, 'f) EditInteractionResponseData \<Rightarrow>
     ('a, 'e, 'f) EditInteractionResponseData" where
  "normalize_edit c d =
     d\<lparr>EditInteractionResponseData.Embeds :=
         map_option (map_slice (normalized c)) (EditInteractionResponseData.Embeds d)\<rparr>"

subsection \<open>The rules in the words of the specification\<close>

text \<open>
  A new message has something to show: its content is set to a non-empty string, or its
  embed list is non-nil and non-empty, or its file list is non-empty. A nullable string
  has three states, absent, explicitly null and set to a value; it is set to a value when
  the pointer is non-nil and the flag \<open>Init\<close> is on.
\<close>

definition has_visible_part :: "('a, 'e, 'f) InteractionResponseData \<Rightarrow> bool" where
  "has_visible_part d =
     ((case InteractionResponseData.Content d of
         None \<Rightarrow> False | Some n \<Rightarrow> Init n \<and> Val n \<noteq> '''') \<or>
      (case InteractionResponseData.Embeds d of None \<Rightarrow> False | Some s \<Rightarrow> len s > 0) \<or>
      len (InteractionResponseData.Files d) > 0)"

text \<open>
  The content is an explicit null that still holds a non-empty value: the flag \<open>Init\<close> is
  off, so the field is encoded as \<^verbatim>\<open>null\<close>, and \<open>Val\<close> is not the empty string.
\<close>

definition null_content_with_value :: "('a, 'e, 'f) InteractionResponseData \<Rightarrow> bool" where
  "null_content_with_value d =
     (case InteractionResponseData.Content d of
        None \<Rightarrow> False | Some n \<Rightarrow> \<not> Init n \<and> Val n \<noteq> '''')"

text \<open>
  An update clears every visible field: content is present but cleared, the embed list is
  present but empty, and no file is attached. This is the condition as the specification
  words it; a pointer to \<^verbatim>\<open>[]discord.Embed{}\<close> satisfies it.
\<close>

definition clears_everything :: "('a, 'e, 'f) InteractionResponseData \<Rightarrow> bool" where
  "clears_everything d =
     ((case InteractionResponseData.Content d of None \<Rightarrow> False | Some n \<Rightarrow> \<not> Init n) \<and>
      (case InteractionResponseData.Embeds d of None \<Rightarrow> False | Some s \<Rightarrow> len s = 0) \<and>
      len (InteractionResponseData.Files d) = 0)"

text \<open>The same with the test the source makes on the embed list: the slice is nil.\<close>

definition clears_with_nil_embeds :: "('a, 'e, 'f) InteractionResponseData \<Rightarrow> bool" where
  "clears_with_nil_embeds d =
     ((case InteractionResponseData.Content d of None \<Rightarrow> False | Some n \<Rightarrow> \<not> Init n) \<and>
      InteractionResponseData.Embeds d = Some Nil_slice \<and>
      len (InteractionResponseData.Files d) = 0)"

text \<open>The URL of the follow-up route as the specification gives it.\<close>

definition followup_route :: "('a, 'e, 'f, 'x, 'i) env \<Rightarrow> 'i \<Rightarrow> string \<Rightarrow> string" where
  "followup_route c appID token = EndpointWebhooks c @ ID_String c appID @ ''/'' @ token"

text \<open>
  The parts of a URL: what stands before the query and the fragment, that is, up to the
  first \<^verbatim>\<open>?\<close> or \<^verbatim>\<open>#\<close>, which is where the path ends; and the query, which is what
  follows the first \<^verbatim>\<open>?\<close> up to a \<^verbatim>\<open>#\<close>, or \<open>None\<close> when the URL has no query.
\<close>

definition url_before_query :: "string \<Rightarrow> string" where
  "url_before_query u = takeWhile (\<lambda>ch. ch \<noteq> CHR ''?'' \<and> ch \<noteq> CHR ''#'') u"

definition url_query :: "string \<Rightarrow> string option" where
  "url_query u =
     (case dropWhile (\<lambda>ch. ch \<noteq> CHR ''?'' \<and> ch \<noteq> CHR ''#'') u of
        [] \<Rightarrow> None
      | ch # rest \<Rightarrow>
          if ch = CHR ''?'' then Some (takeWhile (\<lambda>ch. ch \<noteq> CHR ''#'') rest) else None)"

text \<open>
  An optional embed list passes the embed batch, said of the list alone: every embed
  passes its own validation and every running sum of the lengths is at most 6000. An
  omitted list passes.
\<close>

definition embeds_pass :: "('a, 'e, 'f, 'x, 'i) env \<Rightarrow> 'e slice option \<Rightarrow> bool" where
  "embeds_pass c es =
     (case es of
        None \<Rightarrow> True
      | Some s \<Rightarrow>
          (\<forall>e\<in>set (elems s). embed_ok c e) \<and> within_budget 0 (embed_lengths c (elems s)))"

subsection \<open>Concrete inputs\<close>

text \<open>
  A small instance on which the operations can be run: an embed is a length, a type and a
  flag saying whether it is well formed; its validator fills in the type \<^verbatim>\<open>rich\<close> when
  none is given. A mention policy is a flag saying whether it is consistent. Identifiers
  are given in their string form, a file by its name. The transport answers every call
  with no error and no message.
\<close>

record demo_embed =
  text_len :: int
  kind :: string
  well_formed :: bool

definition demo_env :: "(bool, demo_embed, string, string, string) env" where
  "demo_env =
     \<lparr>Endpoint = ''https://host/api/'',
      ID_String = (\<lambda>s. s),
      Verify = (\<lambda>m. if m then None else Some ''inconsistent policy''),
      Validate = (\<lambda>e. if well_formed e
                       then (None, e\<lparr>kind := (if kind e = [] then ''rich'' else kind e)\<rparr>)
                       else (Some ''malformed embed'', e)),
      Length = text_len,
      reply = (\<lambda>rq. (None, None))\<rparr>"

definition demo_data ::
  "NullableString \<Rightarrow> demo_embed slice option \<Rightarrow> bool option \<Rightarrow> string slice \<Rightarrow>
     (bool, demo_embed, string) InteractionResponseData" where
  "demo_data content embeds mentions files =
     \<lparr>InteractionResponseData.Content = content, TTS = False,
      InteractionResponseData.Embeds = embeds, InteractionResponseData.Components = None,
      InteractionResponseData.AllowedMentions = mentions, Flags = 0,
      InteractionResponseData.Files = files, Choices = None, CustomID = None, Title = None\<rparr>"

definition demo_edit ::
  "NullableString \<Rightarrow> demo_embed slice option \<Rightarrow> bool option \<Rightarrow> string slice \<Rightarrow>
     (bool, demo_embed, string) EditInteractionResponseData" where
  "demo_edit content embeds mentions files =
     \<lparr>EditInteractionResponseData.Content = content,
      EditInteractionResponseData.Embeds = embeds,
      EditInteractionResponseData.Components = None,
      EditInteractionResponseData.AllowedMentions = mentions, Attachments = None,
      EditInteractionResponseData.Files = files\<rparr>"

definition demo_embed_of :: "int \<Rightarrow> demo_embed" where
  "demo_embed_of n = \<lparr>text_len = n, kind = [], well_formed = True\<rparr>"

definition demo_malformed :: demo_embed where
  "demo_malformed = \<lparr>text_len = 10, kind = [], well_formed = False\<rparr>"

definition cleared :: NullableString where
  "cleared = Some \<lparr>Val = [], Init = False\<rparr>"

definition text_of :: "string \<Rightarrow> NullableString" where
  "text_of v = Some \<lparr>Val = v, Init = True\<rparr>"

section \<open>Properties of the embed loop\<close>

declare embedLoop.simps [simp del]

lemma embedLoop_Nil_slice: "embedLoop c mk thing i sm Nil_slice = (None, Nil_slice)"
  by (subst embedLoop.simps) (simp add: len_def)

text \<open>
  From index \<open>i\<close> on, the loop does to a slice what \<open>embedScan\<close> does to its slots from
  \<open>i\<close> on, and leaves the slots below \<open>i\<close> alone.
\<close>

lemma embedLoop_Slice:
  "i \<le> length xs \<Longrightarrow>
   embedLoop c mk thing i sm (Slice xs) =
     (case embedScan c mk thing i sm (drop i xs) of (r, ys) \<Rightarrow> (r, Slice (take i xs @ ys)))"
proof (induction c mk thing i sm "Slice xs" arbitrary: xs rule: embedLoop.induct)
  case (1 c mk thing i sm)
  show ?case
  proof (cases "i < length xs")
    case False
    with "1.prems" have "i = length xs" by simp
    then show ?thesis by (subst embedLoop.simps) (simp add: len_def)
  next
    case inside: True
    then have d: "drop i xs = xs ! i # drop (Suc i) xs"
      by (simp add: Cons_nth_drop_Suc)
    obtain r e where v: "Validate c (xs ! i) = (r, e)" by (cases "Validate c (xs ! i)")
    show ?thesis
    proof (cases r)
      case (Some err)
      with inside v d show ?thesis
        by (subst embedLoop.simps) (simp add: len_def id_take_nth_drop [symmetric])
    next
      case None
      show ?thesis
      proof (cases "sm + Length c e > 6000")
        case True
        with inside v d None show ?thesis
          by (subst embedLoop.simps) (simp add: len_def id_take_nth_drop [symmetric])
      next
        case False
        have ih: "embedLoop c mk thing (i + 1) (sm + Length c e) (Slice (xs[i := e])) =
          (case embedScan c mk thing (i + 1) (sm + Length c e) (drop (i + 1) (xs[i := e])) of
             (r, ys) \<Rightarrow> (r, Slice (take (i + 1) (xs[i := e]) @ ys)))"
          using "1.hyps" [of None e "xs[i := e]"] inside v None False
          by (simp add: len_def)
        have t: "take (Suc i) (xs[i := e]) = take i xs @ [e]"
          using inside by (simp add: take_Suc_conv_app_nth)
        show ?thesis
          using inside v d None False ih t
          by (subst embedLoop.simps) (simp add: len_def split: prod.splits)
      qed
    qed
  qed
qed

lemma embedLoop_start:
  "embedLoop c mk thing 0 sm (Slice xs) =
     (case embedScan c mk thing 0 sm xs of (r, ys) \<Rightarrow> (r, Slice ys))"
  using embedLoop_Slice [of 0 xs c mk thing sm] by simp

lemma within_budget_Nil: "within_budget sm []"
  by (simp add: within_budget_def)

lemma within_budget_Cons:
  "within_budget sm (n # ns) \<longleftrightarrow> sm + n \<le> 6000 \<and> within_budget (sm + n) ns"
proof
  assume a: "within_budget sm (n # ns)"
  have "sm + n \<le> 6000" using a [unfolded within_budget_def, rule_format, of 1] by simp
  moreover have "within_budget (sm + n) ns"
    unfolding within_budget_def
  proof (intro allI impI)
    fix k assume "k \<le> length ns" "0 < k"
    then show "sm + n + sum_list (take k ns) \<le> 6000"
      using a [unfolded within_budget_def, rule_format, of "Suc k"] by simp
  qed
  ultimately show "sm + n \<le> 6000 \<and> within_budget (sm + n) ns" ..
next
  assume a: "sm + n \<le> 6000 \<and> within_budget (sm + n) ns"
  show "within_budget sm (n # ns)"
    unfolding within_budget_def
  proof (intro allI impI)
    fix k assume k: "k \<le> length (n # ns)" "0 < k"
    then obtain j where j: "k = Suc j" by (cases k) auto
    show "sm + sum_list (take k (n # ns)) \<le> 6000"
    proof (cases "j = 0")
      case True with j a show ?thesis by simp
    next
      case False
      with j k a [unfolded within_budget_def] show ?thesis
        by (simp add: add.assoc)
    qed
  qed
qed

lemma embedScan_prefix:
  "\<lbrakk>\<forall>e\<in>set pre. embed_ok c e; within_budget sm (embed_lengths c pre)\<rbrakk> \<Longrightarrow>
   embedScan c mk thing i sm (pre @ rest) =
     (case embedScan c mk thing (i + length pre) (sm + sum_list (embed_lengths c pre)) rest of
        (r, ys) \<Rightarrow> (r, map (normalized c) pre @ ys))"
proof (induction pre arbitrary: i sm)
  case Nil
  then show ?case by (simp add: embed_lengths_def)
next
  case (Cons x pre)
  obtain e where v: "Validate c x = (None, e)"
    using Cons.prems(1) by (cases "Validate c x") (simp add: embed_ok_def)
  have n: "normalized c x = e" using v by (simp add: normalized_def)
  have b: "sm + Length c e \<le> 6000" "within_budget (sm + Length c e) (embed_lengths c pre)"
    using Cons.prems(2) n by (simp_all add: embed_lengths_def within_budget_Cons)
  have "embedScan c mk thing (Suc i) (sm + Length c e) (pre @ rest) =
     (case embedScan c mk thing (Suc i + length pre) (sm + Length c e + sum_list (embed_lengths c pre)) rest of
        (r, ys) \<Rightarrow> (r, map (normalized c) pre @ ys))"
    using Cons.IH [of "sm + Length c e" "Suc i"] Cons.prems(1) b(2) by simp
  then show ?case
    using v b(1) n by (simp add: embed_lengths_def add.assoc split: prod.splits)
qed

lemma embedScan_invalid:
  assumes "\<forall>e\<in>set pre. embed_ok c e" "within_budget sm (embed_lengths c pre)"
    and "fst (Validate c x) = Some err"
  shows "embedScan c mk thing i sm (pre @ x # post) =
           (Some (mk (i + length pre) err), map (normalized c) pre @ x # post)"
proof -
  obtain e where "Validate c x = (Some err, e)"
    using assms(3) by (cases "Validate c x") simp
  then show ?thesis
    by (simp add: embedScan_prefix [OF assms(1,2)])
qed

lemma embedScan_overbound:
  assumes "\<forall>e\<in>set pre. embed_ok c e" "within_budget sm (embed_lengths c pre)"
    and "embed_ok c x"
    and "sm + sum_list (embed_lengths c (pre @ [x])) > 6000"
  shows "embedScan c mk thing i sm (pre @ x # post) =
           (Some (OverboundError (sm + sum_list (embed_lengths c (pre @ [x]))) 6000 thing),
            map (normalized c) pre @ x # post)"
proof -
  obtain e where v: "Validate c x = (None, e)"
    using assms(3) by (cases "Validate c x") (simp add: embed_ok_def)
  then have "normalized c x = e" by (simp add: normalized_def)
  with v assms(4) show ?thesis
    by (simp add: embedScan_prefix [OF assms(1,2)] embed_lengths_def add.assoc)
qed

lemma embedScan_pass:
  assumes "\<forall>e\<in>set xs. embed_ok c e" "within_budget sm (embed_lengths c xs)"
  shows "embedScan c mk thing i sm xs = (None, map (normalized c) xs)"
  using embedScan_prefix [OF assms, of mk thing i "[]"] by simp

lemma embedScan_None_D:
  "embedScan c mk thing i sm xs = (None, ys) \<Longrightarrow>
   (\<forall>e\<in>set xs. embed_ok c e) \<and> within_budget sm (embed_lengths c xs) \<and> ys = map (normalized c) xs"
proof (induction xs arbitrary: i sm ys)
  case Nil
  then show ?case by (simp add: embed_lengths_def within_budget_Nil)
next
  case (Cons x xs)
  obtain r e where v: "Validate c x = (r, e)" by (cases "Validate c x")
  with Cons.prems have r: "r = None" by (cases r) auto
  with v Cons.prems have le: "\<not> sm + Length c e > 6000" by (auto split: if_splits)
  with v r Cons.prems obtain zs where
    z: "embedScan c mk thing (i + 1) (sm + Length c e) xs = (None, zs)" "ys = e # zs"
    by (auto split: prod.splits)
  from Cons.IH [OF z(1)] v r le z(2) show ?case
    by (simp add: embed_ok_def normalized_def embed_lengths_def within_budget_Cons)
qed

lemma within_budget_nonneg:
  assumes "\<forall>n\<in>set ns. 0 \<le> n" "sm + sum_list ns \<le> 6000"
  shows "within_budget sm ns"
  unfolding within_budget_def
proof (intro allI impI)
  fix k assume "k \<le> length ns" "0 < k"
  have "sum_list (take k ns) + sum_list (drop k ns) = sum_list ns"
    by (metis append_take_drop_id sum_list_append)
  moreover have "0 \<le> sum_list (drop k ns)"
    using assms(1) by (meson in_set_dropD sum_list_nonneg)
  ultimately show "sm + sum_list (take k ns) \<le> 6000"
    using assms(2) by linarith
qed


text \<open>What the scan can return as an error.\<close>

lemma embedScan_error_shape:
  "embedScan c mk thing i sm xs = (Some err, ys) \<Longrightarrow>
   (\<exists>j x. err = mk j x) \<or> (\<exists>n. err = OverboundError n 6000 thing)"
proof (induction xs arbitrary: i sm ys)
  case Nil
  then show ?case by simp
next
  case (Cons x xs)
  obtain r e where v: "Validate c x = (r, e)" by (cases "Validate c x")
  show ?case
  proof (cases r)
    case (Some a)
    with v Cons.prems show ?thesis by auto
  next
    case None
    show ?thesis
    proof (cases "sm + Length c e > 6000")
      case True
      with v None Cons.prems show ?thesis by auto
    next
      case False
      with v None Cons.prems obtain zs where
        "embedScan c mk thing (i + 1) (sm + Length c e) xs = (Some err, zs)"
        by (auto split: prod.splits)
      from Cons.IH [OF this] show ?thesis .
    qed
  qed
qed

text \<open>The same facts for the loop, started as the operations start it.\<close>

lemma embedLoop_None:
  assumes "embedLoop c mk thing 0 0 s = (None, s')"
  shows "s' = map_slice (normalized c) s"
    and "\<forall>e\<in>set (elems s). embed_ok c e"
    and "within_budget 0 (embed_lengths c (elems s))"
proof -
  have "s' = map_slice (normalized c) s \<and> (\<forall>e\<in>set (elems s). embed_ok c e) \<and>
        within_budget 0 (embed_lengths c (elems s))"
  proof (cases s)
    case Nil_slice
    with assms show ?thesis
      by (simp add: embedLoop_Nil_slice embed_lengths_def within_budget_Nil)
  next
    case (Slice xs)
    with assms obtain ys where "embedScan c mk thing 0 0 xs = (None, ys)" "s' = Slice ys"
      by (auto simp: embedLoop_start split: prod.splits)
    with embedScan_None_D [OF this(1)] Slice show ?thesis by simp
  qed
  then show "s' = map_slice (normalized c) s"
    and "\<forall>e\<in>set (elems s). embed_ok c e"
    and "within_budget 0 (embed_lengths c (elems s))" by simp_all
qed

lemma embedLoop_pass:
  assumes "\<forall>e\<in>set (elems s). embed_ok c e" "within_budget 0 (embed_lengths c (elems s))"
  shows "embedLoop c mk thing 0 0 s = (None, map_slice (normalized c) s)"
proof (cases s)
  case Nil_slice
  then show ?thesis by (simp add: embedLoop_Nil_slice)
next
  case (Slice xs)
  with assms show ?thesis by (simp add: embedLoop_start embedScan_pass)
qed

lemma embedLoop_error_shape:
  assumes "embedLoop c mk thing 0 0 s = (Some err, s')"
  shows "(\<exists>j x. err = mk j x) \<or> (\<exists>n. err = OverboundError n 6000 thing)"
proof (cases s)
  case Nil_slice
  with assms show ?thesis by (simp add: embedLoop_Nil_slice)
next
  case (Slice xs)
  with assms obtain ys where "embedScan c mk thing 0 0 xs = (Some err, ys)"
    by (auto simp: embedLoop_start split: prod.splits)
  then show ?thesis by (rule embedScan_error_shape)
qed

lemma embedLoop_invalid:
  assumes "\<forall>e\<in>set pre. embed_ok c e" "within_budget 0 (embed_lengths c pre)"
    and "fst (Validate c x) = Some err"
  shows "embedLoop c mk thing 0 0 (Slice (pre @ x # post)) =
           (Some (mk (length pre) err), Slice (map (normalized c) pre @ x # post))"
  using embedScan_invalid [OF assms, of mk thing 0 post] by (simp add: embedLoop_start)

lemma embedLoop_overbound:
  assumes "\<forall>e\<in>set pre. embed_ok c e" "within_budget 0 (embed_lengths c pre)"
    and "embed_ok c x"
    and "sum_list (embed_lengths c (pre @ [x])) > 6000"
  shows "embedLoop c mk thing 0 0 (Slice (pre @ x # post)) =
           (Some (OverboundError (sum_list (embed_lengths c (pre @ [x]))) 6000 thing),
            Slice (map (normalized c) pre @ x # post))"
  using embedScan_overbound [of pre c 0 x mk thing 0 post] assms by (simp add: embedLoop_start)

section \<open>The operations as a sequence of checks\<close>

lemma mk_at_eq: "(\<lambda>i err. Errorf ''embed error at %d: %w'' [i] err) = embed_error_at"
  by (intro ext) (simp add: embed_error_at_def)

lemma mk_plain_eq: "(\<lambda>i err. Errorf ''embed error: %w'' [] err) = embed_error"
  by (intro ext) (simp add: embed_error_def)

lemma response_types_distinct: "MessageInteractionWithSource \<noteq> UpdateMessage"
  by (simp add: MessageInteractionWithSource_def UpdateMessage_def)

lemma first_failure_Cons:
  "first_failure (x # xs) = (case x of None \<Rightarrow> first_failure xs | Some e \<Rightarrow> Some e)"
  by (cases x) simp_all

lemma first_failure_single: "first_failure [x] = x"
  by (cases x) simp_all

lemma normalize_data_None:
  "InteractionResponseData.Embeds d = None \<Longrightarrow> normalize_data c d = d"
  by (simp add: normalize_data_def)

lemma normalize_data_Some:
  "InteractionResponseData.Embeds d = Some s \<Longrightarrow>
   normalize_data c d = d\<lparr>InteractionResponseData.Embeds := Some (map_slice (normalized c) s)\<rparr>"
  by (simp add: normalize_data_def)

lemma normalize_edit_None:
  "EditInteractionResponseData.Embeds d = None \<Longrightarrow> normalize_edit c d = d"
  by (simp add: normalize_edit_def)

lemma normalize_edit_Some:
  "EditInteractionResponseData.Embeds d = Some s \<Longrightarrow>
   normalize_edit c d = d\<lparr>EditInteractionResponseData.Embeds := Some (map_slice (normalized c) s)\<rparr>"
  by (simp add: normalize_edit_def)

lemma embed_check_None:
  assumes "embed_check c mk thing es = None" "es = Some s"
  shows "embedLoop c mk thing 0 0 s = (None, map_slice (normalized c) s)"
proof -
  obtain r s' where l: "embedLoop c mk thing 0 0 s = (r, s')"
    by (cases "embedLoop c mk thing 0 0 s")
  with assms have "r = None" by (simp add: embed_check_def)
  with l embedLoop_None(1) [of c mk thing s s'] show ?thesis by simp
qed

lemma embed_check_Some:
  assumes "embed_check c mk thing es = Some err"
  obtains s s' where "es = Some s" "embedLoop c mk thing 0 0 s = (Some err, s')"
proof -
  from assms obtain s where s: "es = Some s" by (cases es) (simp_all add: embed_check_def)
  obtain r s' where l: "embedLoop c mk thing 0 0 s = (r, s')"
    by (cases "embedLoop c mk thing 0 0 s")
  with assms s have "r = Some err" by (simp add: embed_check_def)
  with s l that show ?thesis by simp
qed

subsection \<open>FollowUpInteraction\<close>

lemma FollowUp_fail:
  fixes c :: "('a, 'e, 'f, 'x, 'i) env"
  assumes "first_failure [emptiness_new d,
             mention_check c (InteractionResponseData.AllowedMentions d),
             embed_check c embed_error_at ''sum of all text in embeds''
               (InteractionResponseData.Embeds d)] = Some err"
  shows "ret (FollowUpInteraction c appID token d) = (None, Some err)"
    and "sent (FollowUpInteraction c appID token d) = []"
proof -
  have "ret (FollowUpInteraction c appID token d) = (None, Some err) \<and>
        sent (FollowUpInteraction c appID token d) = []"
  proof (cases "emptiness_new d :: 'x error option")
    case (Some e)
    with assms have "e = err" by simp
    with Some show ?thesis
      by (simp add: FollowUpInteraction_def emptiness_new_def split: if_splits)
  next
    case empt: None
    show ?thesis
    proof (cases "mention_check c (InteractionResponseData.AllowedMentions d)")
      case (Some e)
      with assms empt have "e = err" by simp
      with Some empt show ?thesis
        by (auto simp: FollowUpInteraction_def emptiness_new_def mention_check_def Let_def
            split: if_splits option.splits)
    next
      case ment: None
      with assms empt have "embed_check c embed_error_at ''sum of all text in embeds''
               (InteractionResponseData.Embeds d) = Some err"
        by (simp add: first_failure_single)
      then obtain s s' where s: "InteractionResponseData.Embeds d = Some s"
        "embedLoop c embed_error_at ''sum of all text in embeds'' 0 0 s = (Some err, s')"
        by (rule embed_check_Some)
      with empt ment show ?thesis
        by (auto simp: FollowUpInteraction_def emptiness_new_def mention_check_def Let_def mk_at_eq
            split: if_splits option.splits)
    qed
  qed
  then show "ret (FollowUpInteraction c appID token d) = (None, Some err)"
    and "sent (FollowUpInteraction c appID token d) = []" by simp_all
qed

lemma FollowUp_pass:
  fixes c :: "('a, 'e, 'f, 'x, 'i) env"
  assumes "first_failure [emptiness_new d,
             mention_check c (InteractionResponseData.AllowedMentions d),
             embed_check c embed_error_at ''sum of all text in embeds''
               (InteractionResponseData.Embeds d)] = None"
  shows "FollowUpInteraction c appID token d =
           (let rq = sendpart_POST (ResponseData (normalize_data c d)) True
                       (EndpointWebhooks c @ ID_String c appID @ ''/'' @ token @ ''?'')
            in \<lparr>ret = (snd (reply c rq), map_option External (fst (reply c rq))),
                after = normalize_data c d, sent = [rq]\<rparr>)"
proof -
  from assms have empt: "emptiness_new d = (None :: 'x error option)"
    by (cases "emptiness_new d :: 'x error option") simp_all
  with assms have ment: "mention_check c (InteractionResponseData.AllowedMentions d) = None"
    by (cases "mention_check c (InteractionResponseData.AllowedMentions d)") simp_all
  with assms empt have emb: "embed_check c embed_error_at ''sum of all text in embeds''
               (InteractionResponseData.Embeds d) = None"
    by (simp add: first_failure_single)
  show ?thesis
  proof (cases "InteractionResponseData.Embeds d")
    case None
    with empt ment normalize_data_None [OF None, of c] show ?thesis
      by (auto simp: FollowUpInteraction_def emptiness_new_def mention_check_def Let_def
          split: if_splits option.splits)
  next
    case (Some s)
    from embed_check_None [OF emb Some] Some empt ment normalize_data_Some [OF Some, of c]
    show ?thesis
      by (auto simp: FollowUpInteraction_def emptiness_new_def mention_check_def Let_def
          mk_at_eq split: if_splits option.splits)
  qed
qed

subsection \<open>RespondInteraction\<close>

lemma Respond_nil:
  assumes "Data resp = None"
  shows "RespondInteraction c iid token resp =
           (let rq = sendpart_POST (Response resp) False
                       (EndpointInteractions c @ ID_String c iid @ ''/'' @ token @ ''/callback'')
            in \<lparr>ret = map_option External (fst (reply c rq)), after = resp, sent = [rq]\<rparr>)"
  using assms by (simp add: RespondInteraction_def Let_def)

lemma Respond_fail:
  fixes c :: "('a, 'e, 'f, 'x, 'i) env"
  assumes "Data resp = Some d"
    and "first_failure [emptiness_of (Type resp) d,
             mention_check c (InteractionResponseData.AllowedMentions d),
             embed_check c embed_error_at ''sum of all text in embeds''
               (InteractionResponseData.Embeds d)] = Some err"
  shows "ret (RespondInteraction c iid token resp) = Some err"
    and "sent (RespondInteraction c iid token resp) = []"
proof -
  have "ret (RespondInteraction c iid token resp) = Some err \<and>
        sent (RespondInteraction c iid token resp) = []"
  proof (cases "emptiness_of (Type resp) d :: 'x error option")
    case (Some e)
    with assms have "e = err" by simp
    with Some assms(1) show ?thesis
      by (simp add: RespondInteraction_def emptiness_of_def emptiness_new_def
          emptiness_update_def split: if_splits)
  next
    case empt: None
    show ?thesis
    proof (cases "mention_check c (InteractionResponseData.AllowedMentions d)")
      case (Some e)
      with assms empt have "e = err" by simp
      with Some empt assms(1) show ?thesis
        by (auto simp: RespondInteraction_def emptiness_of_def emptiness_new_def
            emptiness_update_def mention_check_def Let_def
            split: if_splits option.splits)
    next
      case ment: None
      with assms empt have "embed_check c embed_error_at ''sum of all text in embeds''
               (InteractionResponseData.Embeds d) = Some err"
        by (simp add: first_failure_single)
      then obtain s s' where s: "InteractionResponseData.Embeds d = Some s"
        "embedLoop c embed_error_at ''sum of all text in embeds'' 0 0 s = (Some err, s')"
        by (rule embed_check_Some)
      with empt ment assms(1) show ?thesis
        by (auto simp: RespondInteraction_def emptiness_of_def emptiness_new_def
            emptiness_update_def mention_check_def Let_def mk_at_eq
            split: if_splits option.splits)
    qed
  qed
  then show "ret (RespondInteraction c iid token resp) = Some err"
    and "sent (RespondInteraction c iid token resp) = []" by simp_all
qed

lemma Respond_pass:
  fixes c :: "('a, 'e, 'f, 'x, 'i) env"
  assumes "Data resp = Some d"
    and "first_failure [emptiness_of (Type resp) d,
             mention_check c (InteractionResponseData.AllowedMentions d),
             embed_check c embed_error_at ''sum of all text in embeds''
               (InteractionResponseData.Embeds d)] = None"
  shows "RespondInteraction c iid token resp =
           (let rq = sendpart_POST (Response (resp\<lparr>Data := Some (normalize_data c d)\<rparr>)) False
                       (EndpointInteractions c @ ID_String c iid @ ''/'' @ token @ ''/callback'')
            in \<lparr>ret = map_option External (fst (reply c rq)),
                after = resp\<lparr>Data := Some (normalize_data c d)\<rparr>, sent = [rq]\<rparr>)"
proof -
  from assms(2) have empt: "emptiness_of (Type resp) d = (None :: 'x error option)"
    by (cases "emptiness_of (Type resp) d :: 'x error option") simp_all
  with assms(2) have ment: "mention_check c (InteractionResponseData.AllowedMentions d) = None"
    by (cases "mention_check c (InteractionResponseData.AllowedMentions d)") simp_all
  with assms(2) empt have emb: "embed_check c embed_error_at ''sum of all text in embeds''
               (InteractionResponseData.Embeds d) = None"
    by (simp add: first_failure_single)
  have same: "resp\<lparr>Data := Some d\<rparr> = resp" using assms(1) by simp
  show ?thesis
  proof (cases "InteractionResponseData.Embeds d")
    case None
    with empt ment normalize_data_None [OF None, of c] assms(1) show ?thesis
      by (auto simp: RespondInteraction_def emptiness_of_def emptiness_new_def
          emptiness_update_def mention_check_def Let_def same
          split: if_splits option.splits)
  next
    case (Some s)
    from embed_check_None [OF emb Some] Some empt ment normalize_data_Some [OF Some, of c] assms(1)
    show ?thesis
      by (auto simp: RespondInteraction_def emptiness_of_def emptiness_new_def
          emptiness_update_def mention_check_def Let_def mk_at_eq
          split: if_splits option.splits)
  qed
qed

subsection \<open>EditInteractionResponse and EditInteractionFollowup\<close>

lemma EditResponse_fail:
  fixes c :: "('a, 'e, 'f, 'x, 'i) env"
  assumes "first_failure [mention_check c (EditInteractionResponseData.AllowedMentions d),
             embed_check c embed_error ''sum of text in embeds''
               (EditInteractionResponseData.Embeds d)] = Some err"
  shows "ret (EditInteractionResponse c appID token d) = (None, Some err)"
    and "sent (EditInteractionResponse c appID token d) = []"
proof -
  have "ret (EditInteractionResponse c appID token d) = (None, Some err) \<and>
        sent (EditInteractionResponse c appID token d) = []"
  proof (cases "mention_check c (EditInteractionResponseData.AllowedMentions d)")
    case (Some e)
    with assms have "e = err" by simp
    with Some show ?thesis
      by (auto simp: EditInteractionResponse_def mention_check_def Let_def
          split: if_splits option.splits)
  next
    case ment: None
    with assms have "embed_check c embed_error ''sum of text in embeds''
             (EditInteractionResponseData.Embeds d) = Some err"
      by (simp add: first_failure_single)
    then obtain s s' where s: "EditInteractionResponseData.Embeds d = Some s"
      "embedLoop c embed_error ''sum of text in embeds'' 0 0 s = (Some err, s')"
      by (rule embed_check_Some)
    with ment show ?thesis
      by (auto simp: EditInteractionResponse_def mention_check_def Let_def mk_plain_eq
          split: if_splits option.splits)
  qed
  then show "ret (EditInteractionResponse c appID token d) = (None, Some err)"
    and "sent (EditInteractionResponse c appID token d) = []" by simp_all
qed

lemma EditResponse_pass:
  fixes c :: "('a, 'e, 'f, 'x, 'i) env"
  assumes "first_failure [mention_check c (EditInteractionResponseData.AllowedMentions d),
             embed_check c embed_error ''sum of text in embeds''
               (EditInteractionResponseData.Embeds d)] = None"
  shows "EditInteractionResponse c appID token d =
           (let rq = sendpart_PATCH (EditData (normalize_edit c d)) True
                       (EndpointWebhooks c @ ID_String c appID @ ''/'' @ token @
                        ''/messages/@original'')
            in \<lparr>ret = (snd (reply c rq), map_option External (fst (reply c rq))),
                after = normalize_edit c d, sent = [rq]\<rparr>)"
proof -
  from assms have ment: "mention_check c (EditInteractionResponseData.AllowedMentions d) = None"
    by (cases "mention_check c (EditInteractionResponseData.AllowedMentions d)") simp_all
  with assms have emb: "embed_check c embed_error ''sum of text in embeds''
               (EditInteractionResponseData.Embeds d) = None"
    by (simp add: first_failure_single)
  show ?thesis
  proof (cases "EditInteractionResponseData.Embeds d")
    case None
    with ment normalize_edit_None [OF None, of c] show ?thesis
      by (auto simp: EditInteractionResponse_def mention_check_def Let_def
          split: if_splits option.splits)
  next
    case (Some s)
    from embed_check_None [OF emb Some] Some ment normalize_edit_Some [OF Some, of c]
    show ?thesis
      by (auto simp: EditInteractionResponse_def mention_check_def Let_def mk_plain_eq
          split: if_splits option.splits)
  qed
qed

lemma EditFollowup_fail:
  fixes c :: "('a, 'e, 'f, 'x, 'i) env"
  assumes "first_failure [mention_check c (EditInteractionResponseData.AllowedMentions d),
             embed_check c embed_error ''sum of text in embeds''
               (EditInteractionResponseData.Embeds d)] = Some err"
  shows "ret (EditInteractionFollowup c appID messageID token d) = (None, Some err)"
    and "sent (EditInteractionFollowup c appID messageID token d) = []"
proof -
  have "ret (EditInteractionFollowup c appID messageID token d) = (None, Some err) \<and>
        sent (EditInteractionFollowup c appID messageID token d) = []"
  proof (cases "mention_check c (EditInteractionResponseData.AllowedMentions d)")
    case (Some e)
    with assms have "e = err" by simp
    with Some show ?thesis
      by (auto simp: EditInteractionFollowup_def mention_check_def Let_def
          split: if_splits option.splits)
  next
    case ment: None
    with assms have "embed_check c embed_error ''sum of text in embeds''
             (EditInteractionResponseData.Embeds d) = Some err"
      by (simp add: first_failure_single)
    then obtain s s' where s: "EditInteractionResponseData.Embeds d = Some s"
      "embedLoop c embed_error ''sum of text in embeds'' 0 0 s = (Some err, s')"
      by (rule embed_check_Some)
    with ment show ?thesis
      by (auto simp: EditInteractionFollowup_def mention_check_def Let_def mk_plain_eq
          split: if_splits option.splits)
  qed
  then show "ret (EditInteractionFollowup c appID messageID token d) = (None, Some err)"
    and "sent (EditInteractionFollowup c appID messageID token d) = []" by simp_all
qed

lemma EditFollowup_pass:
  fixes c :: "('a, 'e, 'f, 'x, 'i) env"
  assumes "first_failure [mention_check c (EditInteractionResponseData.AllowedMentions d),
             embed_check c embed_error ''sum of text in embeds''
               (EditInteractionResponseData.Embeds d)] = None"
  shows "EditInteractionFollowup c appID messageID token d =
           (let rq = sendpart_PATCH (EditData (normalize_edit c d)) True
                       (EndpointWebhooks c @ ID_String c appID @ ''/'' @ token @
                        ''/messages/'' @ ID_String c messageID)
            in \<lparr>ret = (snd (reply c rq), map_option External (fst (reply c rq))),
                after = normalize_edit c d, sent = [rq]\<rparr>)"
proof -
  from assms have ment: "mention_check c (EditInteractionResponseData.AllowedMentions d) = None"
    by (cases "mention_check c (EditInteractionResponseData.AllowedMentions d)") simp_all
  with assms have emb: "embed_check c embed_error ''sum of text in embeds''
               (EditInteractionResponseData.Embeds d) = None"
    by (simp add: first_failure_single)
  show ?thesis
  proof (cases "EditInteractionResponseData.Embeds d")
    case None
    with ment normalize_edit_None [OF None, of c] show ?thesis
      by (auto simp: EditInteractionFollowup_def mention_check_def Let_def
          split: if_splits option.splits)
  next
    case (Some s)
    from embed_check_None [OF emb Some] Some ment normalize_edit_Some [OF Some, of c]
    show ?thesis
      by (auto simp: EditInteractionFollowup_def mention_check_def Let_def mk_plain_eq
          split: if_splits option.splits)
  qed
qed

subsection \<open>A failure inside the embed loop\<close>

text \<open>
  When the loop stops with an error, the operation returns it, makes no call, and the
  payload holds the slice as the loop left it.
\<close>

lemma FollowUp_loop_fail:
  fixes c :: "('a, 'e, 'f, 'x, 'i) env"
  assumes "emptiness_new d = (None :: 'x error option)"
    and "mention_check c (InteractionResponseData.AllowedMentions d) = None"
    and "InteractionResponseData.Embeds d = Some s"
    and "embedLoop c embed_error_at ''sum of all text in embeds'' 0 0 s = (Some err, s')"
  shows "FollowUpInteraction c appID token d =
           \<lparr>ret = (None, Some err),
            after = d\<lparr>InteractionResponseData.Embeds := Some s'\<rparr>, sent = []\<rparr>"
  using assms
  by (auto simp: FollowUpInteraction_def emptiness_new_def mention_check_def Let_def mk_at_eq
      split: if_splits option.splits)

lemma Respond_loop_fail:
  fixes c :: "('a, 'e, 'f, 'x, 'i) env"
  assumes "Data resp = Some d"
    and "emptiness_of (Type resp) d = (None :: 'x error option)"
    and "mention_check c (InteractionResponseData.AllowedMentions d) = None"
    and "InteractionResponseData.Embeds d = Some s"
    and "embedLoop c embed_error_at ''sum of all text in embeds'' 0 0 s = (Some err, s')"
  shows "RespondInteraction c iid token resp =
           \<lparr>ret = Some err,
            after = resp\<lparr>Data := Some (d\<lparr>InteractionResponseData.Embeds := Some s'\<rparr>)\<rparr>,
            sent = []\<rparr>"
  using assms
  by (auto simp: RespondInteraction_def emptiness_of_def emptiness_new_def
      emptiness_update_def mention_check_def Let_def mk_at_eq
      split: if_splits option.splits)

lemma EditResponse_loop_fail:
  fixes c :: "('a, 'e, 'f, 'x, 'i) env"
  assumes "mention_check c (EditInteractionResponseData.AllowedMentions d) = None"
    and "EditInteractionResponseData.Embeds d = Some s"
    and "embedLoop c embed_error ''sum of text in embeds'' 0 0 s = (Some err, s')"
  shows "EditInteractionResponse c appID token d =
           \<lparr>ret = (None, Some err),
            after = d\<lparr>EditInteractionResponseData.Embeds := Some s'\<rparr>, sent = []\<rparr>"
  using assms
  by (auto simp: EditInteractionResponse_def mention_check_def Let_def mk_plain_eq
      split: if_splits option.splits)

lemma EditFollowup_loop_fail:
  fixes c :: "('a, 'e, 'f, 'x, 'i) env"
  assumes "mention_check c (EditInteractionResponseData.AllowedMentions d) = None"
    and "EditInteractionResponseData.Embeds d = Some s"
    and "embedLoop c embed_error ''sum of text in embeds'' 0 0 s = (Some err, s')"
  shows "EditInteractionFollowup c appID messageID token d =
           \<lparr>ret = (None, Some err),
            after = d\<lparr>EditInteractionResponseData.Embeds := Some s'\<rparr>, sent = []\<rparr>"
  using assms
  by (auto simp: EditInteractionFollowup_def mention_check_def Let_def mk_plain_eq
      split: if_splits option.splits)

text \<open>A payload with at least one embed passes either emptiness test.\<close>

lemma emptiness_with_embeds:
  assumes "InteractionResponseData.Embeds d = Some (Slice (x # xs))"
  shows "emptiness_new d = None" and "emptiness_of t d = None"
  using assms
  by (simp_all add: emptiness_of_def emptiness_new_def emptiness_update_def len_def)

section \<open>The claims\<close>

lemma mention_check_shape:
  "mention_check c am = Some err \<Longrightarrow> \<exists>x. err = Errorf ''allowedMentions error: %w'' [] x"
  by (auto simp: mention_check_def split: option.splits)

lemma embed_check_shape:
  assumes "embed_check c mk thing es = Some err"
  shows "(\<exists>j x. err = mk j x) \<or> (\<exists>n. err = OverboundError n 6000 thing)"
proof -
  from assms obtain s s' where "embedLoop c mk thing 0 0 s = (Some err, s')"
    by (rule embed_check_Some)
  then show ?thesis by (rule embedLoop_error_shape)
qed

lemma later_checks_not_empty:
  "first_failure [mention_check c am, embed_check c embed_error_at thing es] \<noteq> Some ErrEmptyMessage"
proof
  assume a: "first_failure [mention_check c am, embed_check c embed_error_at thing es] =
    Some ErrEmptyMessage"
  show False
  proof (cases "mention_check c am")
    case (Some e)
    with a mention_check_shape [OF Some] show False by auto
  next
    case None
    with a have "embed_check c embed_error_at thing es = Some ErrEmptyMessage"
      by (simp add: first_failure_single)
    from embed_check_shape [OF this] show False by (auto simp: embed_error_at_def)
  qed
qed

subsection \<open>The deprecated name\<close>

text \<open>
  Claim C10. For all inputs (\<open>appID\<close>, \<open>token\<close>, \<open>data\<close>), \<^verbatim>\<open>CreateInteractionFollowup\<close>
  returns the same message and error as \<^verbatim>\<open>FollowUpInteraction\<close>, leaves the payload in the
  same state and makes the same call into the transport.
\<close>

theorem CreateInteractionFollowup_is_FollowUpInteraction:
  "CreateInteractionFollowup c appID token data = FollowUpInteraction c appID token data"
  by (simp add: CreateInteractionFollowup_def)

subsection \<open>A response without data\<close>

text \<open>
  Claim C9. When \<^verbatim>\<open>resp.Data\<close> is nil, \<^verbatim>\<open>RespondInteraction\<close> goes straight to the
  transport, for every response type \<open>t\<close>: it makes one call, with the response as it
  was given, and returns what the transport returns. The right-hand side mentions none of
  \<open>Verify\<close>, \<open>Validate\<close> and \<open>Length\<close>, so no check is made; and the error returned is
  never \<open>ErrEmptyMessage\<close>, nor a wrapped error, nor an \<open>OverboundError\<close>.
\<close>

theorem RespondInteraction_nil_data:
  "RespondInteraction c iid token \<lparr>Type = t, Data = None\<rparr> =
     \<lparr>ret = map_option External
              (fst (reply c (sendpart_POST (Response \<lparr>Type = t, Data = None\<rparr>) False
                 (EndpointInteractions c @ ID_String c iid @ ''/'' @ token @ ''/callback'')))),
      after = \<lparr>Type = t, Data = None\<rparr>,
      sent = [sendpart_POST (Response \<lparr>Type = t, Data = None\<rparr>) False
                (EndpointInteractions c @ ID_String c iid @ ''/'' @ token @ ''/callback'')]\<rparr> \<and>
   ret (RespondInteraction c iid token \<lparr>Type = t, Data = None\<rparr>) \<noteq> Some ErrEmptyMessage \<and>
   (\<forall>fmt args x.
      ret (RespondInteraction c iid token \<lparr>Type = t, Data = None\<rparr>) \<noteq> Some (Errorf fmt args x)) \<and>
   (\<forall>n m thing.
      ret (RespondInteraction c iid token \<lparr>Type = t, Data = None\<rparr>) \<noteq>
        Some (OverboundError n m thing))"
  by (auto simp: Respond_nil Let_def)

subsection \<open>Emptiness of a new message\<close>

text \<open>
  What the two new-message tests decide, for every payload. They read the value \<open>Val\<close> of
  the content and never its flag \<open>Init\<close>: the error is returned exactly when the payload
  has nothing to show and, besides, its content is not a null that holds a value. So the
  tests agree with the rule of the specification on every payload but those.
\<close>

lemma new_message_emptiness_by_value:
  fixes c :: "('a, 'e, 'f, 'x, 'i) env"
  shows
  "(ret (RespondInteraction c iid token \<lparr>Type = MessageInteractionWithSource, Data = Some d\<rparr>) =
      Some ErrEmptyMessage) = (\<not> has_visible_part d \<and> \<not> null_content_with_value d) \<and>
   (ret (FollowUpInteraction c appID token d) = (None, Some ErrEmptyMessage)) =
      (\<not> has_visible_part d \<and> \<not> null_content_with_value d)"
proof -
  let ?resp = "\<lparr>Type = MessageInteractionWithSource, Data = Some d\<rparr>"
  let ?later = "[mention_check c (InteractionResponseData.AllowedMentions d),
     embed_check c embed_error_at ''sum of all text in embeds''
       (InteractionResponseData.Embeds d)]"
  let ?empty = "\<not> has_visible_part d \<and> \<not> null_content_with_value d"
  have e: "emptiness_of (Type ?resp) d = (emptiness_new d :: 'x error option)"
    by (simp add: emptiness_of_def)
  have v: "(emptiness_new d = Some (ErrEmptyMessage :: 'x error)) = ?empty"
    "\<not> ?empty \<Longrightarrow> emptiness_new d = (None :: 'x error option)"
    by (auto simp: emptiness_new_def has_visible_part_def null_content_with_value_def
        split: option.splits)
  show ?thesis
  proof (cases ?empty)
    case True
    with v have f: "first_failure (emptiness_new d # ?later) = Some ErrEmptyMessage" by simp
    from Respond_fail(1) [of ?resp d c ErrEmptyMessage iid token] f e
    have "ret (RespondInteraction c iid token ?resp) = Some ErrEmptyMessage" by simp
    with FollowUp_fail(1) [OF f] True show ?thesis by simp
  next
    case False
    with v have n: "emptiness_new d = (None :: 'x error option)" by blast
    from later_checks_not_empty [of c "InteractionResponseData.AllowedMentions d"
        "''sum of all text in embeds''" "InteractionResponseData.Embeds d"]
    have l: "first_failure ?later \<noteq> Some ErrEmptyMessage" .
    have "ret (RespondInteraction c iid token ?resp) \<noteq> Some ErrEmptyMessage \<and>
          ret (FollowUpInteraction c appID token d) \<noteq> (None, Some ErrEmptyMessage)"
    proof (cases "first_failure ?later")
      case None
      with n have f: "first_failure (emptiness_new d # ?later) = None" by simp
      from Respond_pass [of ?resp d c iid token] f e FollowUp_pass [OF f, of appID token]
      show ?thesis by (auto simp: Let_def)
    next
      case (Some err)
      with n have f: "first_failure (emptiness_new d # ?later) = Some err" by simp
      from Respond_fail(1) [of ?resp d c err iid token] f e FollowUp_fail(1) [OF f, of appID token]
        l Some
      show ?thesis by auto
    qed
    with False show ?thesis by blast
  qed
qed

text \<open>
  Claim C4, at a concrete input. A new message (\<^verbatim>\<open>RespondInteraction\<close> with type
  \<^verbatim>\<open>MessageInteractionWithSource\<close> and non-nil data, and \<^verbatim>\<open>FollowUpInteraction\<close>) is to fail
  with \<open>ErrEmptyMessage\<close> unless its content is set to a non-empty string, or its embed
  list is non-nil and non-empty, or its file list is non-empty. The payload below has no
  embeds and no files, and its content is an explicit null (\<open>Init\<close> off) whose \<open>Val\<close> is
  \<^verbatim>\<open>hi\<close>: it has nothing to show, and the field goes out as \<^verbatim>\<open>null\<close>. The source tests
  \<^verbatim>\<open>Content.Val == ""\<close> only, so neither operation returns the error: both make their
  call. The test of \<^verbatim>\<open>UpdateMessage\<close> in the same function does read \<open>Init\<close>, and the comment
  above the test has it make sure that no field is null or empty.
\<close>

theorem null_content_with_value_is_sent:
  "\<not> has_visible_part
       (demo_data (Some \<lparr>Val = ''hi'', Init = False\<rparr>) None None Nil_slice) \<and>
   ret (RespondInteraction demo_env ''7'' ''tok''
          \<lparr>Type = MessageInteractionWithSource,
           Data = Some (demo_data (Some \<lparr>Val = ''hi'', Init = False\<rparr>) None None Nil_slice)\<rparr>)
     = None \<and>
   sent (RespondInteraction demo_env ''7'' ''tok''
          \<lparr>Type = MessageInteractionWithSource,
           Data = Some (demo_data (Some \<lparr>Val = ''hi'', Init = False\<rparr>) None None Nil_slice)\<rparr>)
     = [sendpart_POST
          (Response \<lparr>Type = MessageInteractionWithSource,
                     Data = Some (demo_data (Some \<lparr>Val = ''hi'', Init = False\<rparr>) None None
                                    Nil_slice)\<rparr>)
          False ''https://host/api/interactions/7/tok/callback''] \<and>
   ret (FollowUpInteraction demo_env ''42'' ''tok''
          (demo_data (Some \<lparr>Val = ''hi'', Init = False\<rparr>) None None Nil_slice))
     = (None, None) \<and>
   sent (FollowUpInteraction demo_env ''42'' ''tok''
          (demo_data (Some \<lparr>Val = ''hi'', Init = False\<rparr>) None None Nil_slice))
     = [sendpart_POST
          (ResponseData (demo_data (Some \<lparr>Val = ''hi'', Init = False\<rparr>) None None Nil_slice))
          True ''https://host/api/webhooks/42/tok?'']"
  by (simp add: RespondInteraction_def FollowUpInteraction_def has_visible_part_def
      demo_data_def demo_env_def len_def MessageInteractionWithSource_def
      EndpointInteractions_def EndpointWebhooks_def)

subsection \<open>Emptiness of an update\<close>

text \<open>
  Claim C1, as stated, at a concrete input. The update below has its content present but
  cleared, its embeds set to a pointer to the empty list \<^verbatim>\<open>[]discord.Embed{}\<close> and no
  files, so it clears every visible field in the sense of the claim. The source compares
  the slice with \<^verbatim>\<open>nil\<close>, which the empty list is not: the call does not fail with
  \<open>ErrEmptyMessage\<close>, it is sent.
\<close>

theorem update_with_empty_embed_list_is_sent:
  "clears_everything (demo_data cleared (Some (Slice [])) None Nil_slice) \<and>
   ret (RespondInteraction demo_env ''7'' ''tok''
          \<lparr>Type = UpdateMessage,
           Data = Some (demo_data cleared (Some (Slice [])) None Nil_slice)\<rparr>)
     \<noteq> Some ErrEmptyMessage \<and>
   sent (RespondInteraction demo_env ''7'' ''tok''
          \<lparr>Type = UpdateMessage,
           Data = Some (demo_data cleared (Some (Slice [])) None Nil_slice)\<rparr>)
     = [sendpart_POST
          (Response \<lparr>Type = UpdateMessage,
                     Data = Some (demo_data cleared (Some (Slice [])) None Nil_slice)\<rparr>)
          False ''https://host/api/interactions/7/tok/callback'']"
  by (simp add: RespondInteraction_def clears_everything_def demo_data_def cleared_def
      demo_env_def len_def UpdateMessage_def MessageInteractionWithSource_def
      EndpointInteractions_def embedLoop_start)

text \<open>
  Claim C1, amended. For \<^verbatim>\<open>RespondInteraction\<close> with type \<^verbatim>\<open>UpdateMessage\<close> and non-nil
  data, the call fails with \<open>ErrEmptyMessage\<close> exactly when content is present with its
  flag \<open>Init\<close> unset, embeds is a non-nil pointer to a nil slice, and the file list is
  empty. In particular a pointer to the non-nil empty list does not raise the error, and
  neither does a payload whose content or embeds are omitted, whatever its files.
\<close>

theorem update_message_emptiness:
  fixes c :: "('a, 'e, 'f, 'x, 'i) env"
  shows
  "(ret (RespondInteraction c iid token \<lparr>Type = UpdateMessage, Data = Some d\<rparr>) =
      Some ErrEmptyMessage) = clears_with_nil_embeds d \<and>
   (InteractionResponseData.Content d = None \<or> InteractionResponseData.Embeds d = None \<or>
    InteractionResponseData.Embeds d = Some (Slice []) \<longrightarrow>
      ret (RespondInteraction c iid token \<lparr>Type = UpdateMessage, Data = Some d\<rparr>) \<noteq>
        Some ErrEmptyMessage)"
proof -
  let ?resp = "\<lparr>Type = UpdateMessage, Data = Some d\<rparr>"
  let ?later = "[mention_check c (InteractionResponseData.AllowedMentions d),
     embed_check c embed_error_at ''sum of all text in embeds''
       (InteractionResponseData.Embeds d)]"
  have e: "emptiness_of (Type ?resp) d = (emptiness_update d :: 'x error option)"
    using response_types_distinct by (simp add: emptiness_of_def)
  have v: "(emptiness_update d = Some (ErrEmptyMessage :: 'x error)) = clears_with_nil_embeds d"
    "\<not> clears_with_nil_embeds d \<Longrightarrow> emptiness_update d = (None :: 'x error option)"
    by (auto simp: emptiness_update_def clears_with_nil_embeds_def split: option.splits)
  have main: "(ret (RespondInteraction c iid token ?resp) = Some ErrEmptyMessage) =
      clears_with_nil_embeds d"
  proof (cases "clears_with_nil_embeds d")
    case True
    with v have f: "first_failure (emptiness_update d # ?later) = Some ErrEmptyMessage" by simp
    from Respond_fail(1) [of ?resp d c ErrEmptyMessage iid token] f e True
    show ?thesis by simp
  next
    case False
    with v have n: "emptiness_update d = (None :: 'x error option)" by simp
    from later_checks_not_empty [of c "InteractionResponseData.AllowedMentions d"
        "''sum of all text in embeds''" "InteractionResponseData.Embeds d"]
    have l: "first_failure ?later \<noteq> Some ErrEmptyMessage" .
    have "ret (RespondInteraction c iid token ?resp) \<noteq> Some ErrEmptyMessage"
    proof (cases "first_failure ?later")
      case None
      with n have f: "first_failure (emptiness_update d # ?later) = None" by simp
      from Respond_pass [of ?resp d c iid token] f e
      show ?thesis by (auto simp: Let_def)
    next
      case (Some err)
      with n have f: "first_failure (emptiness_update d # ?later) = Some err" by simp
      from Respond_fail(1) [of ?resp d c err iid token] f e l Some
      show ?thesis by auto
    qed
    with False show ?thesis by simp
  qed
  moreover have "InteractionResponseData.Content d = None \<or>
      InteractionResponseData.Embeds d = None \<or>
      InteractionResponseData.Embeds d = Some (Slice []) \<Longrightarrow> \<not> clears_with_nil_embeds d"
    by (auto simp: clears_with_nil_embeds_def)
  ultimately show ?thesis by blast
qed

theorem update_message_emptiness_witness:
  "clears_with_nil_embeds (demo_data cleared (Some Nil_slice) None Nil_slice) \<and>
   ret (RespondInteraction demo_env ''7'' ''tok''
          \<lparr>Type = UpdateMessage,
           Data = Some (demo_data cleared (Some Nil_slice) None Nil_slice)\<rparr>)
     = Some ErrEmptyMessage \<and>
   InteractionResponseData.Content (demo_data None (Some Nil_slice) None Nil_slice) = None \<and>
   ret (RespondInteraction demo_env ''7'' ''tok''
          \<lparr>Type = UpdateMessage,
           Data = Some (demo_data None (Some Nil_slice) None Nil_slice)\<rparr>)
     \<noteq> Some ErrEmptyMessage"
proof -
  have a: "clears_with_nil_embeds (demo_data cleared (Some Nil_slice) None Nil_slice)"
    by (simp add: clears_with_nil_embeds_def demo_data_def cleared_def len_def)
  have b: "InteractionResponseData.Content (demo_data None (Some Nil_slice) None Nil_slice) = None"
    by (simp add: demo_data_def)
  from a update_message_emptiness [of demo_env "''7''" "''tok''"
      "demo_data cleared (Some Nil_slice) None Nil_slice"]
  have r1: "ret (RespondInteraction demo_env ''7'' ''tok''
          \<lparr>Type = UpdateMessage,
           Data = Some (demo_data cleared (Some Nil_slice) None Nil_slice)\<rparr>)
     = Some ErrEmptyMessage" by blast
  from b update_message_emptiness [of demo_env "''7''" "''tok''"
      "demo_data None (Some Nil_slice) None Nil_slice"]
  have r2: "ret (RespondInteraction demo_env ''7'' ''tok''
          \<lparr>Type = UpdateMessage,
           Data = Some (demo_data None (Some Nil_slice) None Nil_slice)\<rparr>)
     \<noteq> Some ErrEmptyMessage" by blast
  from a b r1 r2 show ?thesis by blast
qed

subsection \<open>The budget of the embeds\<close>

lemma fills_budget_loop:
  assumes "fills_budget c xs"
  shows "embedLoop c mk thing 0 0 (Slice xs) = (None, Slice (map (normalized c) xs))"
    and "xs \<noteq> []"
proof -
  from assms have "within_budget 0 (embed_lengths c xs)"
    by (intro within_budget_nonneg) (simp_all add: fills_budget_def)
  with assms embedLoop_pass [of "Slice xs" c mk thing]
  show "embedLoop c mk thing 0 0 (Slice xs) = (None, Slice (map (normalized c) xs))"
    by (simp add: fills_budget_def)
  from assms show "xs \<noteq> []" by (auto simp: fills_budget_def embed_lengths_def)
qed

lemma pushes_over_loop:
  assumes "pushes_over c pre x"
  shows "embedLoop c mk thing 0 0 (Slice (pre @ x # post)) =
           (Some (OverboundError (sum_list (embed_lengths c (pre @ [x]))) 6000 thing),
            Slice (map (normalized c) pre @ x # post))"
  using assms by (intro embedLoop_overbound) (simp_all add: pushes_over_def)

lemma nonempty_append: "pre @ x # post = hd (pre @ x # post) # tl (pre @ x # post)"
  by simp

text \<open>
  Claim C5. In every operation that validates an embed list, the lengths of the validated
  embeds are added up in list order and the sum is tested after each embed's own
  validation. If \<open>x\<close> is the first embed that takes the sum over 6000, the operation fails
  with an \<open>OverboundError\<close> whose count is the sum up to and including \<open>x\<close> and whose maximum
  is 6000; no call is made, the embeds before \<open>x\<close> have been stored back, and \<open>x\<close> and the
  embeds after it are as they were. A list whose lengths add up to exactly 6000 passes: the
  call reaches the transport. The mention policy is taken to pass, as it is tested first;
  \<open>d\<close> is the payload of \<^verbatim>\<open>RespondInteraction\<close> (for any response type \<open>t\<close>) and of
  \<^verbatim>\<open>FollowUpInteraction\<close>, \<open>ed\<close> that of the two edit operations.
\<close>

theorem embed_budget:
  fixes c :: "('a, 'e, 'f, 'x, 'i) env"
  assumes "mention_check c (InteractionResponseData.AllowedMentions d) = None"
    and "mention_check c (EditInteractionResponseData.AllowedMentions ed) = None"
  shows
  "(pushes_over c pre x \<longrightarrow>
      (InteractionResponseData.Embeds d = Some (Slice (pre @ x # post)) \<longrightarrow>
         RespondInteraction c iid token \<lparr>Type = t, Data = Some d\<rparr> =
           \<lparr>ret = Some (OverboundError (sum_list (embed_lengths c (pre @ [x]))) 6000
                          ''sum of all text in embeds''),
            after = \<lparr>Type = t, Data = Some (d\<lparr>InteractionResponseData.Embeds :=
                        Some (Slice (map (normalized c) pre @ x # post))\<rparr>)\<rparr>,
            sent = []\<rparr> \<and>
         FollowUpInteraction c appID token d =
           \<lparr>ret = (None, Some (OverboundError (sum_list (embed_lengths c (pre @ [x]))) 6000
                                 ''sum of all text in embeds'')),
            after = d\<lparr>InteractionResponseData.Embeds :=
                        Some (Slice (map (normalized c) pre @ x # post))\<rparr>,
            sent = []\<rparr>) \<and>
      (EditInteractionResponseData.Embeds ed = Some (Slice (pre @ x # post)) \<longrightarrow>
         EditInteractionResponse c appID token ed =
           \<lparr>ret = (None, Some (OverboundError (sum_list (embed_lengths c (pre @ [x]))) 6000
                                 ''sum of text in embeds'')),
            after = ed\<lparr>EditInteractionResponseData.Embeds :=
                        Some (Slice (map (normalized c) pre @ x # post))\<rparr>,
            sent = []\<rparr> \<and>
         EditInteractionFollowup c appID messageID token ed =
           \<lparr>ret = (None, Some (OverboundError (sum_list (embed_lengths c (pre @ [x]))) 6000
                                 ''sum of text in embeds'')),
            after = ed\<lparr>EditInteractionResponseData.Embeds :=
                        Some (Slice (map (normalized c) pre @ x # post))\<rparr>,
            sent = []\<rparr>)) \<and>
   (fills_budget c xs \<longrightarrow>
      (InteractionResponseData.Embeds d = Some (Slice xs) \<longrightarrow>
         sent (RespondInteraction c iid token \<lparr>Type = t, Data = Some d\<rparr>) \<noteq> [] \<and>
         after (RespondInteraction c iid token \<lparr>Type = t, Data = Some d\<rparr>) =
           \<lparr>Type = t, Data = Some (normalize_data c d)\<rparr> \<and>
         sent (FollowUpInteraction c appID token d) \<noteq> [] \<and>
         after (FollowUpInteraction c appID token d) = normalize_data c d) \<and>
      (EditInteractionResponseData.Embeds ed = Some (Slice xs) \<longrightarrow>
         sent (EditInteractionResponse c appID token ed) \<noteq> [] \<and>
         after (EditInteractionResponse c appID token ed) = normalize_edit c ed \<and>
         sent (EditInteractionFollowup c appID messageID token ed) \<noteq> [] \<and>
         after (EditInteractionFollowup c appID messageID token ed) = normalize_edit c ed))"
proof (intro conjI impI)
  assume p: "pushes_over c pre x"
    and e: "InteractionResponseData.Embeds d = Some (Slice (pre @ x # post))"
  from e have e': "InteractionResponseData.Embeds d =
      Some (Slice (hd (pre @ x # post) # tl (pre @ x # post)))"
    by (simp only: nonempty_append [symmetric])
  let ?resp = "\<lparr>Type = t, Data = Some d\<rparr>"
  from Respond_loop_fail [of ?resp d c _ _ _ iid token, OF _ _ assms(1) e
      pushes_over_loop [OF p]] emptiness_with_embeds(2) [OF e', of t]
  show "RespondInteraction c iid token ?resp =
           \<lparr>ret = Some (OverboundError (sum_list (embed_lengths c (pre @ [x]))) 6000
                          ''sum of all text in embeds''),
            after = \<lparr>Type = t, Data = Some (d\<lparr>InteractionResponseData.Embeds :=
                        Some (Slice (map (normalized c) pre @ x # post))\<rparr>)\<rparr>,
            sent = []\<rparr>"
    by simp
  from FollowUp_loop_fail [OF emptiness_with_embeds(1) [OF e'] assms(1) e pushes_over_loop [OF p]]
  show "FollowUpInteraction c appID token d =
           \<lparr>ret = (None, Some (OverboundError (sum_list (embed_lengths c (pre @ [x]))) 6000
                                 ''sum of all text in embeds'')),
            after = d\<lparr>InteractionResponseData.Embeds :=
                        Some (Slice (map (normalized c) pre @ x # post))\<rparr>,
            sent = []\<rparr>" .
next
  assume p: "pushes_over c pre x"
    and e: "EditInteractionResponseData.Embeds ed = Some (Slice (pre @ x # post))"
  from EditResponse_loop_fail [OF assms(2) e pushes_over_loop [OF p]]
  show "EditInteractionResponse c appID token ed =
           \<lparr>ret = (None, Some (OverboundError (sum_list (embed_lengths c (pre @ [x]))) 6000
                                 ''sum of text in embeds'')),
            after = ed\<lparr>EditInteractionResponseData.Embeds :=
                        Some (Slice (map (normalized c) pre @ x # post))\<rparr>,
            sent = []\<rparr>" .
  from EditFollowup_loop_fail [OF assms(2) e pushes_over_loop [OF p]]
  show "EditInteractionFollowup c appID messageID token ed =
           \<lparr>ret = (None, Some (OverboundError (sum_list (embed_lengths c (pre @ [x]))) 6000
                                 ''sum of text in embeds'')),
            after = ed\<lparr>EditInteractionResponseData.Embeds :=
                        Some (Slice (map (normalized c) pre @ x # post))\<rparr>,
            sent = []\<rparr>" .
next
  assume f: "fills_budget c xs"
    and e: "InteractionResponseData.Embeds d = Some (Slice xs)"
  from fills_budget_loop(2) [OF f] obtain y ys where xs: "xs = y # ys" by (cases xs) auto
  let ?resp = "\<lparr>Type = t, Data = Some d\<rparr>"
  have chk: "embed_check c embed_error_at ''sum of all text in embeds''
      (InteractionResponseData.Embeds d) = None"
    using e fills_budget_loop(1) [OF f] by (simp add: embed_check_def)
  have ff: "first_failure [emptiness_new d,
      mention_check c (InteractionResponseData.AllowedMentions d),
      embed_check c embed_error_at ''sum of all text in embeds''
        (InteractionResponseData.Embeds d)] = None"
    using chk assms(1) by (simp add: emptiness_with_embeds(1) [OF e [unfolded xs]])
  have ff': "first_failure [emptiness_of (Type ?resp) d,
      mention_check c (InteractionResponseData.AllowedMentions d),
      embed_check c embed_error_at ''sum of all text in embeds''
        (InteractionResponseData.Embeds d)] = None"
    using chk assms(1) by (simp add: emptiness_with_embeds(2) [OF e [unfolded xs]])
  from Respond_pass [of ?resp d c iid token, OF _ ff']
  show "sent (RespondInteraction c iid token ?resp) \<noteq> []"
    and "after (RespondInteraction c iid token ?resp) = \<lparr>Type = t, Data = Some (normalize_data c d)\<rparr>"
    by (simp_all add: Let_def)
  from FollowUp_pass [OF ff, of appID token]
  show "sent (FollowUpInteraction c appID token d) \<noteq> []"
    and "after (FollowUpInteraction c appID token d) = normalize_data c d"
    by (simp_all add: Let_def)
next
  assume f: "fills_budget c xs"
    and e: "EditInteractionResponseData.Embeds ed = Some (Slice xs)"
  have chk: "embed_check c embed_error ''sum of text in embeds''
      (EditInteractionResponseData.Embeds ed) = None"
    using e fills_budget_loop(1) [OF f] by (simp add: embed_check_def)
  have ff: "first_failure [mention_check c (EditInteractionResponseData.AllowedMentions ed),
      embed_check c embed_error ''sum of text in embeds''
        (EditInteractionResponseData.Embeds ed)] = None"
    using chk assms(2) by simp
  from EditResponse_pass [OF ff, of appID token]
  show "sent (EditInteractionResponse c appID token ed) \<noteq> []"
    and "after (EditInteractionResponse c appID token ed) = normalize_edit c ed"
    by (simp_all add: Let_def)
  from EditFollowup_pass [OF ff, of appID messageID token]
  show "sent (EditInteractionFollowup c appID messageID token ed) \<noteq> []"
    and "after (EditInteractionFollowup c appID messageID token ed) = normalize_edit c ed"
    by (simp_all add: Let_def)
qed

lemma demo_mentions_none:
  "mention_check demo_env (InteractionResponseData.AllowedMentions (demo_data n es None fs)) = None"
  "mention_check demo_env (EditInteractionResponseData.AllowedMentions (demo_edit n es None fs)) = None"
  by (simp_all add: mention_check_def demo_data_def demo_edit_def)

lemma demo_embeds:
  "InteractionResponseData.Embeds (demo_data n es m fs) = es"
  "EditInteractionResponseData.Embeds (demo_edit n es m fs) = es"
  by (simp_all add: demo_data_def demo_edit_def)

lemma demo_embed_facts:
  "embed_ok demo_env (demo_embed_of n)"
  "Length demo_env (normalized demo_env (demo_embed_of n)) = n"
  "\<not> embed_ok demo_env demo_malformed"
  "fst (Validate demo_env demo_malformed) = Some ''malformed embed''"
  by (simp_all add: embed_ok_def normalized_def demo_env_def demo_embed_of_def demo_malformed_def)

lemma demo_routes:
  "EndpointWebhooks demo_env = ''https://host/api/webhooks/''"
  "EndpointInteractions demo_env = ''https://host/api/interactions/''"
  "ID_String demo_env s = s"
  "reply demo_env rq = (None, None)"
  by (simp_all add: EndpointWebhooks_def EndpointInteractions_def demo_env_def)

theorem embed_budget_witness:
  "pushes_over demo_env [demo_embed_of 4000] (demo_embed_of 3000) \<and>
   ret (RespondInteraction demo_env ''7'' ''tok''
        \<lparr>Type = MessageInteractionWithSource,
         Data = Some (demo_data None (Some (Slice [demo_embed_of 4000, demo_embed_of 3000]))
                        None Nil_slice)\<rparr>) =
     Some (OverboundError 7000 6000 ''sum of all text in embeds'') \<and>
   ret (FollowUpInteraction demo_env ''42'' ''tok''
        (demo_data None (Some (Slice [demo_embed_of 4000, demo_embed_of 3000])) None Nil_slice)) =
     (None, Some (OverboundError 7000 6000 ''sum of all text in embeds'')) \<and>
   ret (EditInteractionResponse demo_env ''42'' ''tok''
        (demo_edit None (Some (Slice [demo_embed_of 4000, demo_embed_of 3000])) None Nil_slice)) =
     (None, Some (OverboundError 7000 6000 ''sum of text in embeds'')) \<and>
   ret (EditInteractionFollowup demo_env ''42'' ''99'' ''tok''
        (demo_edit None (Some (Slice [demo_embed_of 4000, demo_embed_of 3000])) None Nil_slice)) =
     (None, Some (OverboundError 7000 6000 ''sum of text in embeds'')) \<and>
   fills_budget demo_env [demo_embed_of 2500, demo_embed_of 3500] \<and>
   sent (RespondInteraction demo_env ''7'' ''tok''
        \<lparr>Type = MessageInteractionWithSource,
         Data = Some (demo_data None (Some (Slice [demo_embed_of 2500, demo_embed_of 3500]))
                        None Nil_slice)\<rparr>) \<noteq> [] \<and>
   sent (FollowUpInteraction demo_env ''42'' ''tok''
        (demo_data None (Some (Slice [demo_embed_of 2500, demo_embed_of 3500])) None Nil_slice))
     \<noteq> [] \<and>
   sent (EditInteractionResponse demo_env ''42'' ''tok''
        (demo_edit None (Some (Slice [demo_embed_of 2500, demo_embed_of 3500])) None Nil_slice))
     \<noteq> [] \<and>
   sent (EditInteractionFollowup demo_env ''42'' ''99'' ''tok''
        (demo_edit None (Some (Slice [demo_embed_of 2500, demo_embed_of 3500])) None Nil_slice))
     \<noteq> []"
proof -
  let ?over = "[demo_embed_of 4000, demo_embed_of 3000]"
  let ?full = "[demo_embed_of 2500, demo_embed_of 3500]"
  have p: "pushes_over demo_env [demo_embed_of 4000] (demo_embed_of 3000)"
    by (simp add: pushes_over_def demo_embed_facts embed_lengths_def within_budget_Cons
        within_budget_Nil)
  have f: "fills_budget demo_env ?full"
    by (simp add: fills_budget_def demo_embed_facts embed_lengths_def)
  have s: "sum_list (embed_lengths demo_env ([demo_embed_of 4000] @ [demo_embed_of 3000])) = 7000"
    by (simp add: demo_embed_facts embed_lengths_def)
  note over = embed_budget [where c = demo_env
      and d = "demo_data None (Some (Slice ?over)) None Nil_slice"
      and ed = "demo_edit None (Some (Slice ?over)) None Nil_slice"
      and pre = "[demo_embed_of 4000]" and x = "demo_embed_of 3000" and post = "[]"
      and xs = ?full
      and iid = "''7''" and token = "''tok''" and t = MessageInteractionWithSource
      and appID = "''42''" and messageID = "''99''", OF demo_mentions_none]
  note full = embed_budget [where c = demo_env
      and d = "demo_data None (Some (Slice ?full)) None Nil_slice"
      and ed = "demo_edit None (Some (Slice ?full)) None Nil_slice"
      and pre = "[demo_embed_of 4000]" and x = "demo_embed_of 3000" and post = "[]"
      and xs = ?full
      and iid = "''7''" and token = "''tok''" and t = MessageInteractionWithSource
      and appID = "''42''" and messageID = "''99''", OF demo_mentions_none]
  from p f s over full show ?thesis
    by (simp add: demo_embeds)
qed

subsection \<open>An embed that fails its own validation\<close>

text \<open>
  What the four operations return when the embed \<open>x\<close>, coming after the embeds \<open>pre\<close>,
  fails its own validation with the error \<open>err\<close>. \<^verbatim>\<open>RespondInteraction\<close> and
  \<^verbatim>\<open>FollowUpInteraction\<close> put the index of \<open>x\<close> into the error; the two edit operations
  do not. In all four the embeds \<open>post\<close> after \<open>x\<close> play no part: the result is the same
  whatever they are, and they are left as they were.
\<close>

lemma embed_failure_with_index:
  fixes c :: "('a, 'e, 'f, 'x, 'i) env"
  assumes "mention_check c (InteractionResponseData.AllowedMentions d) = None"
    and "InteractionResponseData.Embeds d = Some (Slice (pre @ x # post))"
    and "\<forall>e\<in>set pre. embed_ok c e" "within_budget 0 (embed_lengths c pre)"
    and "fst (Validate c x) = Some err"
  shows "RespondInteraction c iid token \<lparr>Type = t, Data = Some d\<rparr> =
           \<lparr>ret = Some (Errorf ''embed error at %d: %w'' [length pre] err),
            after = \<lparr>Type = t, Data = Some (d\<lparr>InteractionResponseData.Embeds :=
                        Some (Slice (map (normalized c) pre @ x # post))\<rparr>)\<rparr>,
            sent = []\<rparr>"
    and "FollowUpInteraction c appID token d =
           \<lparr>ret = (None, Some (Errorf ''embed error at %d: %w'' [length pre] err)),
            after = d\<lparr>InteractionResponseData.Embeds :=
                        Some (Slice (map (normalized c) pre @ x # post))\<rparr>,
            sent = []\<rparr>"
proof -
  from assms(2) have e': "InteractionResponseData.Embeds d =
      Some (Slice (hd (pre @ x # post) # tl (pre @ x # post)))"
    by (simp only: nonempty_append [symmetric])
  let ?resp = "\<lparr>Type = t, Data = Some d\<rparr>"
  note loop = embedLoop_invalid [OF assms(3-5), of embed_error_at _ post]
  from Respond_loop_fail [of ?resp d c _ _ _ iid token, OF _ _ assms(1,2) loop]
    emptiness_with_embeds(2) [OF e', of t]
  show "RespondInteraction c iid token ?resp =
           \<lparr>ret = Some (Errorf ''embed error at %d: %w'' [length pre] err),
            after = \<lparr>Type = t, Data = Some (d\<lparr>InteractionResponseData.Embeds :=
                        Some (Slice (map (normalized c) pre @ x # post))\<rparr>)\<rparr>,
            sent = []\<rparr>"
    by (simp add: embed_error_at_def)
  from FollowUp_loop_fail [OF emptiness_with_embeds(1) [OF e'] assms(1,2) loop]
  show "FollowUpInteraction c appID token d =
           \<lparr>ret = (None, Some (Errorf ''embed error at %d: %w'' [length pre] err)),
            after = d\<lparr>InteractionResponseData.Embeds :=
                        Some (Slice (map (normalized c) pre @ x # post))\<rparr>,
            sent = []\<rparr>"
    by (simp add: embed_error_at_def)
qed

lemma embed_failure_without_index:
  fixes c :: "('a, 'e, 'f, 'x, 'i) env"
  assumes "mention_check c (EditInteractionResponseData.AllowedMentions ed) = None"
    and "EditInteractionResponseData.Embeds ed = Some (Slice (pre @ x # post))"
    and "\<forall>e\<in>set pre. embed_ok c e" "within_budget 0 (embed_lengths c pre)"
    and "fst (Validate c x) = Some err"
  shows "EditInteractionResponse c appID token ed =
           \<lparr>ret = (None, Some (Errorf ''embed error: %w'' [] err)),
            after = ed\<lparr>EditInteractionResponseData.Embeds :=
                        Some (Slice (map (normalized c) pre @ x # post))\<rparr>,
            sent = []\<rparr>"
    and "EditInteractionFollowup c appID messageID token ed =
           \<lparr>ret = (None, Some (Errorf ''embed error: %w'' [] err)),
            after = ed\<lparr>EditInteractionResponseData.Embeds :=
                        Some (Slice (map (normalized c) pre @ x # post))\<rparr>,
            sent = []\<rparr>"
proof -
  note loop = embedLoop_invalid [OF assms(3-5), of embed_error _ post]
  from EditResponse_loop_fail [OF assms(1,2) loop]
  show "EditInteractionResponse c appID token ed =
           \<lparr>ret = (None, Some (Errorf ''embed error: %w'' [] err)),
            after = ed\<lparr>EditInteractionResponseData.Embeds :=
                        Some (Slice (map (normalized c) pre @ x # post))\<rparr>,
            sent = []\<rparr>"
    by (simp add: embed_error_def)
  from EditFollowup_loop_fail [OF assms(1,2) loop]
  show "EditInteractionFollowup c appID messageID token ed =
           \<lparr>ret = (None, Some (Errorf ''embed error: %w'' [] err)),
            after = ed\<lparr>EditInteractionResponseData.Embeds :=
                        Some (Slice (map (normalized c) pre @ x # post))\<rparr>,
            sent = []\<rparr>"
    by (simp add: embed_error_def)
qed

text \<open>
  Claim C3, at a concrete input. The second of three embeds is malformed. The claim has
  every operation return an error that carries the index 1. \<^verbatim>\<open>EditInteractionResponse\<close>
  and \<^verbatim>\<open>EditInteractionFollowup\<close> return \<^verbatim>\<open>fmt.Errorf("embed error: %w", err)\<close>, which
  carries the cause and no index, and is the same error when the malformed embed comes
  first; \<^verbatim>\<open>FollowUpInteraction\<close> and \<^verbatim>\<open>RespondInteraction\<close>, on the same embeds, return
  \<^verbatim>\<open>fmt.Errorf("embed error at %d: %w", i, err)\<close> with the index.
\<close>

theorem edit_embed_error_carries_no_index:
  "ret (EditInteractionResponse demo_env ''42'' ''tok''
        (demo_edit None (Some (Slice [demo_embed_of 10, demo_malformed, demo_embed_of 20]))
           None Nil_slice)) =
     (None, Some (Errorf ''embed error: %w'' [] ''malformed embed'')) \<and>
   ret (EditInteractionResponse demo_env ''42'' ''tok''
        (demo_edit None (Some (Slice [demo_malformed, demo_embed_of 20])) None Nil_slice)) =
     (None, Some (Errorf ''embed error: %w'' [] ''malformed embed'')) \<and>
   ret (EditInteractionFollowup demo_env ''42'' ''99'' ''tok''
        (demo_edit None (Some (Slice [demo_embed_of 10, demo_malformed, demo_embed_of 20]))
           None Nil_slice)) =
     (None, Some (Errorf ''embed error: %w'' [] ''malformed embed'')) \<and>
   ret (FollowUpInteraction demo_env ''42'' ''tok''
        (demo_data None (Some (Slice [demo_embed_of 10, demo_malformed, demo_embed_of 20]))
           None Nil_slice)) =
     (None, Some (Errorf ''embed error at %d: %w'' [1] ''malformed embed'')) \<and>
   ret (RespondInteraction demo_env ''7'' ''tok''
        \<lparr>Type = UpdateMessage,
         Data = Some (demo_data None
           (Some (Slice [demo_embed_of 10, demo_malformed, demo_embed_of 20])) None Nil_slice)\<rparr>) =
     Some (Errorf ''embed error at %d: %w'' [1] ''malformed embed'')"
  by (simp add: EditInteractionResponse_def EditInteractionFollowup_def FollowUpInteraction_def
      RespondInteraction_def demo_edit_def demo_data_def demo_env_def demo_embed_of_def
      demo_malformed_def embedLoop_start len_def UpdateMessage_def
      MessageInteractionWithSource_def)

subsection \<open>The URL of a follow-up\<close>

lemma url_before_query_mark:
  "url_before_query (u @ ''?'') = url_before_query u"
proof (cases "\<forall>ch\<in>set u. ch \<noteq> CHR ''?'' \<and> ch \<noteq> CHR ''#''")
  case True
  then have whole: "takeWhile (\<lambda>ch. ch \<noteq> CHR ''?'' \<and> ch \<noteq> CHR ''#'') u = u"
    by simp
  from True show ?thesis by (simp add: url_before_query_def whole)
next
  case False
  then obtain ch where "ch \<in> set u" "\<not> (ch \<noteq> CHR ''?'' \<and> ch \<noteq> CHR ''#'')" by blast
  then show ?thesis
    unfolding url_before_query_def by (rule takeWhile_append1)
qed

lemma url_plain_mark:
  assumes "CHR ''?'' \<notin> set u" "CHR ''#'' \<notin> set u"
  shows "url_before_query (u @ ''?'') = u" and "url_query (u @ ''?'') = Some ''''"
proof -
  from assms have a: "\<forall>ch\<in>set u. ch \<noteq> CHR ''?'' \<and> ch \<noteq> CHR ''#''" by auto
  then show "url_before_query (u @ ''?'') = u" by (simp add: url_before_query_def)
  from a have "dropWhile (\<lambda>ch. ch \<noteq> CHR ''?'' \<and> ch \<noteq> CHR ''#'') (u @ ''?'') = ''?''"
    by simp
  then show "url_query (u @ ''?'') = Some ''''" by (simp add: url_query_def)
qed

text \<open>
  Claim C2. \<^verbatim>\<open>FollowUpInteraction\<close> makes its request to the route
  \<^verbatim>\<open>webhooks/{appID}/{token}\<close>: when the checks pass, the one call it makes has the URL
  built from the webhook endpoint, the string form of the application ID, \<^verbatim>\<open>/\<close> and the
  token, each as it is, followed by a \<^verbatim>\<open>?\<close> that opens an empty query; when a check fails
  it makes no call. What stands before the query is the same as for the route itself, so
  nothing is appended to the path; for an ID and a token free of \<^verbatim>\<open>?\<close> and \<^verbatim>\<open>#\<close> it is
  the route, character for character, and the query is empty.
\<close>

theorem FollowUpInteraction_route:
  fixes c :: "('a, 'e, 'f, 'x, 'i) env"
  shows
  "(case first_failure
           [emptiness_new d,
            mention_check c (InteractionResponseData.AllowedMentions d),
            embed_check c embed_error_at ''sum of all text in embeds''
              (InteractionResponseData.Embeds d)] of
      Some err \<Rightarrow> sent (FollowUpInteraction c appID token d) = []
    | None \<Rightarrow>
        sent (FollowUpInteraction c appID token d) =
          [sendpart_POST (ResponseData (normalize_data c d)) True
             (EndpointWebhooks c @ ID_String c appID @ ''/'' @ token @ ''?'')]) \<and>
   url_before_query (EndpointWebhooks c @ ID_String c appID @ ''/'' @ token @ ''?'') =
     url_before_query (followup_route c appID token) \<and>
   (CHR ''?'' \<notin> set (followup_route c appID token) \<and>
    CHR ''#'' \<notin> set (followup_route c appID token) \<longrightarrow>
      url_before_query (EndpointWebhooks c @ ID_String c appID @ ''/'' @ token @ ''?'') =
        followup_route c appID token \<and>
      url_query (EndpointWebhooks c @ ID_String c appID @ ''/'' @ token @ ''?'') = Some '''')"
proof (intro conjI impI)
  let ?checks = "[emptiness_new d,
            mention_check c (InteractionResponseData.AllowedMentions d),
            embed_check c embed_error_at ''sum of all text in embeds''
              (InteractionResponseData.Embeds d)]"
  show "case first_failure ?checks of
      Some err \<Rightarrow> sent (FollowUpInteraction c appID token d) = []
    | None \<Rightarrow>
        sent (FollowUpInteraction c appID token d) =
          [sendpart_POST (ResponseData (normalize_data c d)) True
             (EndpointWebhooks c @ ID_String c appID @ ''/'' @ token @ ''?'')]"
  proof (cases "first_failure ?checks")
    case None
    with FollowUp_pass [of d c appID token] show ?thesis by (simp add: Let_def)
  next
    case (Some err)
    with FollowUp_fail(2) [of d c err appID token] show ?thesis by simp
  qed
  have u: "EndpointWebhooks c @ ID_String c appID @ ''/'' @ token @ ''?'' =
      followup_route c appID token @ ''?''"
    by (simp add: followup_route_def)
  show "url_before_query (EndpointWebhooks c @ ID_String c appID @ ''/'' @ token @ ''?'') =
     url_before_query (followup_route c appID token)"
    unfolding u by (rule url_before_query_mark)
  assume "CHR ''?'' \<notin> set (followup_route c appID token) \<and>
    CHR ''#'' \<notin> set (followup_route c appID token)"
  then have n: "CHR ''?'' \<notin> set (followup_route c appID token)"
    "CHR ''#'' \<notin> set (followup_route c appID token)" by simp_all
  show "url_before_query (EndpointWebhooks c @ ID_String c appID @ ''/'' @ token @ ''?'') =
        followup_route c appID token"
    unfolding u by (rule url_plain_mark(1) [OF n])
  show "url_query (EndpointWebhooks c @ ID_String c appID @ ''/'' @ token @ ''?'') = Some ''''"
    unfolding u by (rule url_plain_mark(2) [OF n])
qed

theorem FollowUpInteraction_route_witness:
  "followup_route demo_env ''42'' ''tok'' = ''https://host/api/webhooks/42/tok'' \<and>
   CHR ''?'' \<notin> set (followup_route demo_env ''42'' ''tok'') \<and>
   CHR ''#'' \<notin> set (followup_route demo_env ''42'' ''tok'') \<and>
   sent (FollowUpInteraction demo_env ''42'' ''tok''
           (demo_data (text_of ''hi'') None None Nil_slice)) =
     [sendpart_POST (ResponseData (demo_data (text_of ''hi'') None None Nil_slice)) True
        ''https://host/api/webhooks/42/tok?''] \<and>
   url_before_query ''https://host/api/webhooks/42/tok?'' = ''https://host/api/webhooks/42/tok'' \<and>
   url_query ''https://host/api/webhooks/42/tok?'' = Some '''' \<and>
   sent (FollowUpInteraction demo_env ''42'' ''tok'' (demo_data None None None Nil_slice)) = []"
proof -
  let ?d = "demo_data (text_of ''hi'') None None Nil_slice"
  let ?e = "demo_data None None None Nil_slice"
  have r: "followup_route demo_env ''42'' ''tok'' = ''https://host/api/webhooks/42/tok''"
    by (simp add: followup_route_def demo_routes)
  have n: "CHR ''?'' \<notin> set (followup_route demo_env ''42'' ''tok'')"
    "CHR ''#'' \<notin> set (followup_route demo_env ''42'' ''tok'')"
    by (simp_all add: r)
  have pass: "first_failure
      [emptiness_new ?d, mention_check demo_env (InteractionResponseData.AllowedMentions ?d),
       embed_check demo_env embed_error_at ''sum of all text in embeds''
         (InteractionResponseData.Embeds ?d)] = None"
    by (simp add: emptiness_new_def mention_check_def embed_check_def demo_data_def text_of_def)
  have fail: "first_failure
      [emptiness_new ?e, mention_check demo_env (InteractionResponseData.AllowedMentions ?e),
       embed_check demo_env embed_error_at ''sum of all text in embeds''
         (InteractionResponseData.Embeds ?e)] = Some ErrEmptyMessage"
    by (simp add: emptiness_new_def demo_data_def len_def)
  have nd: "normalize_data demo_env ?d = ?d"
    by (simp add: normalize_data_def demo_data_def)
  have u: "EndpointWebhooks demo_env @ ID_String demo_env ''42'' @ ''/'' @ ''tok'' @ ''?'' =
      ''https://host/api/webhooks/42/tok?''"
    by (simp add: demo_routes)
  note one = FollowUpInteraction_route [where c = demo_env and d = ?d and appID = "''42''"
      and token = "''tok''"]
  note two = FollowUpInteraction_route [where c = demo_env and d = ?e and appID = "''42''"
      and token = "''tok''"]
  have s1: "sent (FollowUpInteraction demo_env ''42'' ''tok'' ?d) =
     [sendpart_POST (ResponseData ?d) True ''https://host/api/webhooks/42/tok?'']"
    using one [THEN conjunct1] unfolding pass nd u by simp
  note parts = one [THEN conjunct2, THEN conjunct2, THEN mp, OF conjI [OF n], unfolded u r]
  have s2: "url_before_query ''https://host/api/webhooks/42/tok?'' =
      ''https://host/api/webhooks/42/tok''"
    by (rule parts [THEN conjunct1])
  have s3: "url_query ''https://host/api/webhooks/42/tok?'' = Some ''''"
    by (rule parts [THEN conjunct2])
  have s4: "sent (FollowUpInteraction demo_env ''42'' ''tok'' ?e) = []"
    using two [THEN conjunct1] unfolding fail by simp
  from r n s1 s2 s3 s4 show ?thesis by blast
qed

subsection \<open>The order of the checks\<close>

text \<open>
  Claim C6. Every operation runs its checks in the order emptiness, mention policy, embed
  batch, and only then calls the transport. The error returned is that of the first check
  that fails, whatever the later checks would say, and in that case no call has been
  made; when no check fails, exactly one call is made, with the payload as the embed loop
  left it, and the operation returns what the transport returns. The two edit operations
  have no emptiness check. \<open>d\<close> is the payload of \<^verbatim>\<open>RespondInteraction\<close> (with any response
  type \<open>t\<close>) and of \<^verbatim>\<open>FollowUpInteraction\<close>, \<open>ed\<close> that of the two edit operations.
\<close>

theorem checks_run_in_order_before_the_call:
  fixes c :: "('a, 'e, 'f, 'x, 'i) env"
  shows
  "(case first_failure
           [emptiness_of t d,
            mention_check c (InteractionResponseData.AllowedMentions d),
            embed_check c embed_error_at ''sum of all text in embeds''
              (InteractionResponseData.Embeds d)] of
      Some err \<Rightarrow>
        ret (RespondInteraction c iid token \<lparr>Type = t, Data = Some d\<rparr>) = Some err \<and>
        sent (RespondInteraction c iid token \<lparr>Type = t, Data = Some d\<rparr>) = []
    | None \<Rightarrow>
        RespondInteraction c iid token \<lparr>Type = t, Data = Some d\<rparr> =
          \<lparr>ret = map_option External (fst (reply c
             (sendpart_POST (Response \<lparr>Type = t, Data = Some (normalize_data c d)\<rparr>) False
                (EndpointInteractions c @ ID_String c iid @ ''/'' @ token @ ''/callback'')))),
           after = \<lparr>Type = t, Data = Some (normalize_data c d)\<rparr>,
           sent = [sendpart_POST (Response \<lparr>Type = t, Data = Some (normalize_data c d)\<rparr>) False
                (EndpointInteractions c @ ID_String c iid @ ''/'' @ token @ ''/callback'')]\<rparr>) \<and>
   (case first_failure
           [emptiness_new d,
            mention_check c (InteractionResponseData.AllowedMentions d),
            embed_check c embed_error_at ''sum of all text in embeds''
              (InteractionResponseData.Embeds d)] of
      Some err \<Rightarrow>
        ret (FollowUpInteraction c appID token d) = (None, Some err) \<and>
        sent (FollowUpInteraction c appID token d) = []
    | None \<Rightarrow>
        FollowUpInteraction c appID token d =
          \<lparr>ret = (snd (reply c
                    (sendpart_POST (ResponseData (normalize_data c d)) True
                       (EndpointWebhooks c @ ID_String c appID @ ''/'' @ token @ ''?''))),
                  map_option External (fst (reply c
                    (sendpart_POST (ResponseData (normalize_data c d)) True
                       (EndpointWebhooks c @ ID_String c appID @ ''/'' @ token @ ''?''))))),
           after = normalize_data c d,
           sent = [sendpart_POST (ResponseData (normalize_data c d)) True
                     (EndpointWebhooks c @ ID_String c appID @ ''/'' @ token @ ''?'')]\<rparr>) \<and>
   (case first_failure
           [mention_check c (EditInteractionResponseData.AllowedMentions ed),
            embed_check c embed_error ''sum of text in embeds''
              (EditInteractionResponseData.Embeds ed)] of
      Some err \<Rightarrow>
        ret (EditInteractionResponse c appID token ed) = (None, Some err) \<and>
        sent (EditInteractionResponse c appID token ed) = [] \<and>
        ret (EditInteractionFollowup c appID messageID token ed) = (None, Some err) \<and>
        sent (EditInteractionFollowup c appID messageID token ed) = []
    | None \<Rightarrow>
        EditInteractionResponse c appID token ed =
          \<lparr>ret = (snd (reply c
                    (sendpart_PATCH (EditData (normalize_edit c ed)) True
                       (EndpointWebhooks c @ ID_String c appID @ ''/'' @ token @
                        ''/messages/@original''))),
                  map_option External (fst (reply c
                    (sendpart_PATCH (EditData (normalize_edit c ed)) True
                       (EndpointWebhooks c @ ID_String c appID @ ''/'' @ token @
                        ''/messages/@original''))))),
           after = normalize_edit c ed,
           sent = [sendpart_PATCH (EditData (normalize_edit c ed)) True
                     (EndpointWebhooks c @ ID_String c appID @ ''/'' @ token @
                      ''/messages/@original'')]\<rparr> \<and>
        EditInteractionFollowup c appID messageID token ed =
          \<lparr>ret = (snd (reply c
                    (sendpart_PATCH (EditData (normalize_edit c ed)) True
                       (EndpointWebhooks c @ ID_String c appID @ ''/'' @ token @
                        ''/messages/'' @ ID_String c messageID))),
                  map_option External (fst (reply c
                    (sendpart_PATCH (EditData (normalize_edit c ed)) True
                       (EndpointWebhooks c @ ID_String c appID @ ''/'' @ token @
                        ''/messages/'' @ ID_String c messageID))))),
           after = normalize_edit c ed,
           sent = [sendpart_PATCH (EditData (normalize_edit c ed)) True
                     (EndpointWebhooks c @ ID_String c appID @ ''/'' @ token @
                      ''/messages/'' @ ID_String c messageID)]\<rparr>)"
proof (intro conjI)
  let ?resp = "\<lparr>Type = t, Data = Some d\<rparr>"
  let ?checks = "[emptiness_of t d,
            mention_check c (InteractionResponseData.AllowedMentions d),
            embed_check c embed_error_at ''sum of all text in embeds''
              (InteractionResponseData.Embeds d)]"
  show "case first_failure ?checks of
      Some err \<Rightarrow>
        ret (RespondInteraction c iid token ?resp) = Some err \<and>
        sent (RespondInteraction c iid token ?resp) = []
    | None \<Rightarrow>
        RespondInteraction c iid token ?resp =
          \<lparr>ret = map_option External (fst (reply c
             (sendpart_POST (Response \<lparr>Type = t, Data = Some (normalize_data c d)\<rparr>) False
                (EndpointInteractions c @ ID_String c iid @ ''/'' @ token @ ''/callback'')))),
           after = \<lparr>Type = t, Data = Some (normalize_data c d)\<rparr>,
           sent = [sendpart_POST (Response \<lparr>Type = t, Data = Some (normalize_data c d)\<rparr>) False
                (EndpointInteractions c @ ID_String c iid @ ''/'' @ token @ ''/callback'')]\<rparr>"
  proof (cases "first_failure ?checks")
    case None
    with Respond_pass [of ?resp d c iid token] show ?thesis by (simp add: Let_def)
  next
    case (Some err)
    with Respond_fail [of ?resp d c err iid token] show ?thesis by simp
  qed
next
  let ?checks = "[emptiness_new d,
            mention_check c (InteractionResponseData.AllowedMentions d),
            embed_check c embed_error_at ''sum of all text in embeds''
              (InteractionResponseData.Embeds d)]"
  show "case first_failure ?checks of
      Some err \<Rightarrow>
        ret (FollowUpInteraction c appID token d) = (None, Some err) \<and>
        sent (FollowUpInteraction c appID token d) = []
    | None \<Rightarrow>
        FollowUpInteraction c appID token d =
          \<lparr>ret = (snd (reply c
                    (sendpart_POST (ResponseData (normalize_data c d)) True
                       (EndpointWebhooks c @ ID_String c appID @ ''/'' @ token @ ''?''))),
                  map_option External (fst (reply c
                    (sendpart_POST (ResponseData (normalize_data c d)) True
                       (EndpointWebhooks c @ ID_String c appID @ ''/'' @ token @ ''?''))))),
           after = normalize_data c d,
           sent = [sendpart_POST (ResponseData (normalize_data c d)) True
                     (EndpointWebhooks c @ ID_String c appID @ ''/'' @ token @ ''?'')]\<rparr>"
  proof (cases "first_failure ?checks")
    case None
    with FollowUp_pass [of d c appID token] show ?thesis by (simp add: Let_def)
  next
    case (Some err)
    with FollowUp_fail [of d c err appID token] show ?thesis by simp
  qed
next
  let ?checks = "[mention_check c (EditInteractionResponseData.AllowedMentions ed),
            embed_check c embed_error ''sum of text in embeds''
              (EditInteractionResponseData.Embeds ed)]"
  show "case first_failure ?checks of
      Some err \<Rightarrow>
        ret (EditInteractionResponse c appID token ed) = (None, Some err) \<and>
        sent (EditInteractionResponse c appID token ed) = [] \<and>
        ret (EditInteractionFollowup c appID messageID token ed) = (None, Some err) \<and>
        sent (EditInteractionFollowup c appID messageID token ed) = []
    | None \<Rightarrow>
        EditInteractionResponse c appID token ed =
          \<lparr>ret = (snd (reply c
                    (sendpart_PATCH (EditData (normalize_edit c ed)) True
                       (EndpointWebhooks c @ ID_String c appID @ ''/'' @ token @
                        ''/messages/@original''))),
                  map_option External (fst (reply c
                    (sendpart_PATCH (EditData (normalize_edit c ed)) True
                       (EndpointWebhooks c @ ID_String c appID @ ''/'' @ token @
                        ''/messages/@original''))))),
           after = normalize_edit c ed,
           sent = [sendpart_PATCH (EditData (normalize_edit c ed)) True
                     (EndpointWebhooks c @ ID_String c appID @ ''/'' @ token @
                      ''/messages/@original'')]\<rparr> \<and>
        EditInteractionFollowup c appID messageID token ed =
          \<lparr>ret = (snd (reply c
                    (sendpart_PATCH (EditData (normalize_edit c ed)) True
                       (EndpointWebhooks c @ ID_String c appID @ ''/'' @ token @
                        ''/messages/'' @ ID_String c messageID))),
                  map_option External (fst (reply c
                    (sendpart_PATCH (EditData (normalize_edit c ed)) True
                       (EndpointWebhooks c @ ID_String c appID @ ''/'' @ token @
                        ''/messages/'' @ ID_String c messageID))))),
           after = normalize_edit c ed,
           sent = [sendpart_PATCH (EditData (normalize_edit c ed)) True
                     (EndpointWebhooks c @ ID_String c appID @ ''/'' @ token @
                      ''/messages/'' @ ID_String c messageID)]\<rparr>"
  proof (cases "first_failure ?checks")
    case None
    with EditResponse_pass [of c ed appID token] EditFollowup_pass [of c ed appID messageID token]
    show ?thesis by (simp add: Let_def)
  next
    case (Some err)
    with EditResponse_fail [of c ed err appID token]
      EditFollowup_fail [of c ed err appID messageID token]
    show ?thesis by simp
  qed
qed

theorem checks_run_in_order_witness:
  "emptiness_new (demo_data None None (Some False) Nil_slice) = Some (ErrEmptyMessage :: string error) \<and>
   mention_check demo_env (Some False) =
     Some (Errorf ''allowedMentions error: %w'' [] ''inconsistent policy'') \<and>
   embed_check demo_env embed_error_at ''sum of all text in embeds''
       (Some (Slice [demo_malformed])) =
     Some (Errorf ''embed error at %d: %w'' [0] ''malformed embed'') \<and>
   ret (FollowUpInteraction demo_env ''42'' ''tok'' (demo_data None None (Some False) Nil_slice)) =
     (None, Some ErrEmptyMessage) \<and>
   sent (FollowUpInteraction demo_env ''42'' ''tok'' (demo_data None None (Some False) Nil_slice)) =
     [] \<and>
   ret (RespondInteraction demo_env ''7'' ''tok''
          \<lparr>Type = MessageInteractionWithSource,
           Data = Some (demo_data (text_of ''hi'') (Some (Slice [demo_malformed])) (Some False)
                          Nil_slice)\<rparr>) =
     Some (Errorf ''allowedMentions error: %w'' [] ''inconsistent policy'') \<and>
   sent (RespondInteraction demo_env ''7'' ''tok''
          \<lparr>Type = MessageInteractionWithSource,
           Data = Some (demo_data (text_of ''hi'') (Some (Slice [demo_malformed])) (Some False)
                          Nil_slice)\<rparr>) = [] \<and>
   ret (EditInteractionResponse demo_env ''42'' ''tok''
          (demo_edit None (Some (Slice [demo_malformed])) (Some False) Nil_slice)) =
     (None, Some (Errorf ''allowedMentions error: %w'' [] ''inconsistent policy'')) \<and>
   sent (EditInteractionFollowup demo_env ''42'' ''99'' ''tok''
          (demo_edit None (Some (Slice [demo_malformed])) (Some False) Nil_slice)) = [] \<and>
   sent (EditInteractionFollowup demo_env ''42'' ''99'' ''tok''
          (demo_edit None (Some (Slice [demo_embed_of 10])) (Some True) Nil_slice)) =
     [sendpart_PATCH
        (EditData (demo_edit None
           (Some (Slice [\<lparr>text_len = 10, kind = ''rich'', well_formed = True\<rparr>])) (Some True)
           Nil_slice))
        True ''https://host/api/webhooks/42/tok/messages/99'']"
proof -
  have e: "emptiness_new (demo_data None None (Some False) Nil_slice) =
      Some (ErrEmptyMessage :: string error)"
    by (simp add: emptiness_new_def demo_data_def len_def)
  have m: "mention_check demo_env (Some False) =
      Some (Errorf ''allowedMentions error: %w'' [] ''inconsistent policy'')"
    by (simp add: mention_check_def demo_env_def)
  have m': "mention_check demo_env (Some True) = None"
    by (simp add: mention_check_def demo_env_def)
  have b: "embed_check demo_env embed_error_at ''sum of all text in embeds''
       (Some (Slice [demo_malformed])) =
     Some (Errorf ''embed error at %d: %w'' [0] ''malformed embed'')"
    by (simp add: embed_check_def embedLoop_start demo_env_def demo_malformed_def
        embed_error_at_def)
  have g: "embed_check demo_env embed_error ''sum of text in embeds''
       (Some (Slice [demo_embed_of 10])) = None"
    by (simp add: embed_check_def embedLoop_start demo_env_def demo_embed_of_def)
  have n: "normalize_edit demo_env (demo_edit None (Some (Slice [demo_embed_of 10])) (Some True)
        Nil_slice) =
      demo_edit None (Some (Slice [\<lparr>text_len = 10, kind = ''rich'', well_formed = True\<rparr>]))
        (Some True) Nil_slice"
    by (simp add: normalize_edit_def demo_edit_def normalized_def demo_env_def demo_embed_of_def)
  have am: "InteractionResponseData.AllowedMentions (demo_data k es a fs) = a"
    "EditInteractionResponseData.AllowedMentions (demo_edit k es a fs) = a" for k es a fs
    by (simp_all add: demo_data_def demo_edit_def)
  have t: "emptiness_of MessageInteractionWithSource
      (demo_data (text_of ''hi'') (Some (Slice [demo_malformed])) (Some False) Nil_slice) =
      (None :: string error option)"
    by (simp add: emptiness_of_def emptiness_new_def demo_data_def text_of_def)
  note one = checks_run_in_order_before_the_call [where c = demo_env
      and d = "demo_data None None (Some False) Nil_slice"
      and ed = "demo_edit None (Some (Slice [demo_malformed])) (Some False) Nil_slice"
      and iid = "''7''" and token = "''tok''" and t = MessageInteractionWithSource
      and appID = "''42''" and messageID = "''99''"]
  note two = checks_run_in_order_before_the_call [where c = demo_env
      and d = "demo_data (text_of ''hi'') (Some (Slice [demo_malformed])) (Some False) Nil_slice"
      and ed = "demo_edit None (Some (Slice [demo_embed_of 10])) (Some True) Nil_slice"
      and iid = "''7''" and token = "''tok''" and t = MessageInteractionWithSource
      and appID = "''42''" and messageID = "''99''"]
  from one two show ?thesis
    by (simp add: e m m' b g n t am demo_embeds demo_routes)
qed

subsection \<open>The choice of the encoding\<close>

text \<open>
  Claim C7. For every payload of every operation the body is multipart if and only if the
  file list of the payload is non-empty; a payload without files, and a response without
  data, gets a JSON body. The multipart body is the JSON encoding of the payload as one
  part, followed by the files as further parts in the order of the list. The hook is
  never called on a nil pointer, so the choice never panics.
\<close>

theorem encoding_selection:
  "sendpart_body p =
     Some (if files_of p = [] then JSON_body p
           else Multipart_body (payload_json p # map file_part (files_of p))) \<and>
   NeedsMultipart p = (files_of p \<noteq> [])"
proof (cases p)
  case (Response resp)
  then show ?thesis
    by (cases "Data resp")
       (simp_all add: sendpart_body_def InteractionResponse_NeedsMultipart_def
          InteractionResponseData_NeedsMultipart_def InteractionResponse_WriteMultipart_def
          sendpart_Write_def len_def)
next
  case (ResponseData d)
  then show ?thesis
    by (simp add: sendpart_body_def InteractionResponseData_NeedsMultipart_def
        InteractionResponseData_WriteMultipart_def sendpart_Write_def len_def)
next
  case (EditData data)
  then show ?thesis
    by (simp add: sendpart_body_def EditInteractionResponseData_NeedsMultipart_def
        EditInteractionResponseData_WriteMultipart_def sendpart_Write_def len_def)
qed

theorem encoding_selection_witness:
  "sendpart_body (ResponseData (demo_data (text_of ''hi'') None None (Slice [''a.png'', ''b.png'']))) =
     Some (Multipart_body
       [payload_json (ResponseData (demo_data (text_of ''hi'') None None
          (Slice [''a.png'', ''b.png'']))),
        file_part ''a.png'', file_part ''b.png'']) \<and>
   sendpart_body (EditData (demo_edit (text_of ''hi'') None None (Slice []))) =
     Some (JSON_body (EditData (demo_edit (text_of ''hi'') None None (Slice [])))) \<and>
   sendpart_body (Response \<lparr>Type = PongInteraction, Data = None\<rparr> ::
       (bool, demo_embed, string) DataWriter) =
     Some (JSON_body (Response \<lparr>Type = PongInteraction, Data = None\<rparr>))"
proof -
  have f: "files_of (ResponseData (demo_data (text_of ''hi'') None None
      (Slice [''a.png'', ''b.png'']))) = [''a.png'', ''b.png'']"
    "files_of (EditData (demo_edit (text_of ''hi'') None None (Slice []))) = ([] :: string list)"
    "files_of (Response \<lparr>Type = PongInteraction, Data = None\<rparr> ::
       (bool, demo_embed, string) DataWriter) = []"
    by (simp_all add: demo_data_def demo_edit_def)
  from f
    encoding_selection [of "ResponseData (demo_data (text_of ''hi'') None None
      (Slice [''a.png'', ''b.png'']))"]
    encoding_selection [of "EditData (demo_edit (text_of ''hi'') None None (Slice []))"]
    encoding_selection [of "Response \<lparr>Type = PongInteraction, Data = None\<rparr> ::
       (bool, demo_embed, string) DataWriter"]
  show ?thesis by simp
qed

subsection \<open>The embeds after a successful validation\<close>

lemma sent_iff_no_failure:
  fixes c :: "('a, 'e, 'f, 'x, 'i) env"
  shows "sent (FollowUpInteraction c appID token d) \<noteq> [] \<Longrightarrow>
           first_failure [emptiness_new d,
             mention_check c (InteractionResponseData.AllowedMentions d),
             embed_check c embed_error_at ''sum of all text in embeds''
               (InteractionResponseData.Embeds d)] = None"
    and "sent (RespondInteraction c iid token \<lparr>Type = t, Data = Some d\<rparr>) \<noteq> [] \<Longrightarrow>
           first_failure [emptiness_of t d,
             mention_check c (InteractionResponseData.AllowedMentions d),
             embed_check c embed_error_at ''sum of all text in embeds''
               (InteractionResponseData.Embeds d)] = None"
    and "sent (EditInteractionResponse c appID token ed) \<noteq> [] \<Longrightarrow>
           first_failure [mention_check c (EditInteractionResponseData.AllowedMentions ed),
             embed_check c embed_error ''sum of text in embeds''
               (EditInteractionResponseData.Embeds ed)] = None"
    and "sent (EditInteractionFollowup c appID messageID token ed) \<noteq> [] \<Longrightarrow>
           first_failure [mention_check c (EditInteractionResponseData.AllowedMentions ed),
             embed_check c embed_error ''sum of text in embeds''
               (EditInteractionResponseData.Embeds ed)] = None"
proof -
  show "first_failure [emptiness_new d,
             mention_check c (InteractionResponseData.AllowedMentions d),
             embed_check c embed_error_at ''sum of all text in embeds''
               (InteractionResponseData.Embeds d)] = None"
    if "sent (FollowUpInteraction c appID token d) \<noteq> []"
    using that FollowUp_fail(2) [of d c _ appID token]
    by (cases "first_failure [emptiness_new d,
             mention_check c (InteractionResponseData.AllowedMentions d),
             embed_check c embed_error_at ''sum of all text in embeds''
               (InteractionResponseData.Embeds d)]") auto
  show "first_failure [emptiness_of t d,
             mention_check c (InteractionResponseData.AllowedMentions d),
             embed_check c embed_error_at ''sum of all text in embeds''
               (InteractionResponseData.Embeds d)] = None"
    if "sent (RespondInteraction c iid token \<lparr>Type = t, Data = Some d\<rparr>) \<noteq> []"
    using that Respond_fail(2) [of "\<lparr>Type = t, Data = Some d\<rparr>" d c _ iid token]
    by (cases "first_failure [emptiness_of t d,
             mention_check c (InteractionResponseData.AllowedMentions d),
             embed_check c embed_error_at ''sum of all text in embeds''
               (InteractionResponseData.Embeds d)]") auto
  show "first_failure [mention_check c (EditInteractionResponseData.AllowedMentions ed),
             embed_check c embed_error ''sum of text in embeds''
               (EditInteractionResponseData.Embeds ed)] = None"
    if "sent (EditInteractionResponse c appID token ed) \<noteq> []"
    using that EditResponse_fail(2) [of c ed _ appID token]
    by (cases "first_failure [mention_check c (EditInteractionResponseData.AllowedMentions ed),
             embed_check c embed_error ''sum of text in embeds''
               (EditInteractionResponseData.Embeds ed)]") auto
  show "first_failure [mention_check c (EditInteractionResponseData.AllowedMentions ed),
             embed_check c embed_error ''sum of text in embeds''
               (EditInteractionResponseData.Embeds ed)] = None"
    if "sent (EditInteractionFollowup c appID messageID token ed) \<noteq> []"
    using that EditFollowup_fail(2) [of c ed _ appID messageID token]
    by (cases "first_failure [mention_check c (EditInteractionResponseData.AllowedMentions ed),
             embed_check c embed_error ''sum of text in embeds''
               (EditInteractionResponseData.Embeds ed)]") auto
qed

lemma written_back_when_sent:
  fixes c :: "('a, 'e, 'f, 'x, 'i) env"
  shows
  "(sent (RespondInteraction c iid token resp) \<noteq> [] \<longrightarrow>
      after (RespondInteraction c iid token resp) =
        resp\<lparr>Data := map_option (normalize_data c) (Data resp)\<rparr> \<and>
      sent (RespondInteraction c iid token resp) =
        [sendpart_POST (Response (resp\<lparr>Data := map_option (normalize_data c) (Data resp)\<rparr>))
           False (EndpointInteractions c @ ID_String c iid @ ''/'' @ token @ ''/callback'')]) \<and>
   (sent (FollowUpInteraction c appID token d) \<noteq> [] \<longrightarrow>
      after (FollowUpInteraction c appID token d) = normalize_data c d \<and>
      sent (FollowUpInteraction c appID token d) =
        [sendpart_POST (ResponseData (normalize_data c d)) True
           (EndpointWebhooks c @ ID_String c appID @ ''/'' @ token @ ''?'')]) \<and>
   (sent (EditInteractionResponse c appID token ed) \<noteq> [] \<longrightarrow>
      after (EditInteractionResponse c appID token ed) = normalize_edit c ed \<and>
      sent (EditInteractionResponse c appID token ed) =
        [sendpart_PATCH (EditData (normalize_edit c ed)) True
           (EndpointWebhooks c @ ID_String c appID @ ''/'' @ token @ ''/messages/@original'')]) \<and>
   (sent (EditInteractionFollowup c appID messageID token ed) \<noteq> [] \<longrightarrow>
      after (EditInteractionFollowup c appID messageID token ed) = normalize_edit c ed \<and>
      sent (EditInteractionFollowup c appID messageID token ed) =
        [sendpart_PATCH (EditData (normalize_edit c ed)) True
           (EndpointWebhooks c @ ID_String c appID @ ''/'' @ token @ ''/messages/'' @
            ID_String c messageID)]) \<and>
   (\<forall>s. len (map_slice (normalized c) s) = len s \<and>
        (\<forall>j<len s. elems (map_slice (normalized c) s) ! j = normalized c (elems s ! j)) \<and>
        (map_slice (normalized c) s = Nil_slice) = (s = Nil_slice))"
proof (intro conjI impI allI)
  assume s: "sent (RespondInteraction c iid token resp) \<noteq> []"
  show "after (RespondInteraction c iid token resp) =
        resp\<lparr>Data := map_option (normalize_data c) (Data resp)\<rparr>"
    and "sent (RespondInteraction c iid token resp) =
        [sendpart_POST (Response (resp\<lparr>Data := map_option (normalize_data c) (Data resp)\<rparr>))
           False (EndpointInteractions c @ ID_String c iid @ ''/'' @ token @ ''/callback'')]"
  proof -
    have "after (RespondInteraction c iid token resp) =
        resp\<lparr>Data := map_option (normalize_data c) (Data resp)\<rparr> \<and>
      sent (RespondInteraction c iid token resp) =
        [sendpart_POST (Response (resp\<lparr>Data := map_option (normalize_data c) (Data resp)\<rparr>))
           False (EndpointInteractions c @ ID_String c iid @ ''/'' @ token @ ''/callback'')]"
    proof (cases "Data resp")
      case None
      then have "resp\<lparr>Data := None\<rparr> = resp" by simp
      with None Respond_nil [OF None, of c iid token] show ?thesis by (simp add: Let_def)
    next
      case (Some d')
      then have r: "resp = \<lparr>Type = Type resp, Data = Some d'\<rparr>" by simp
      from s sent_iff_no_failure(2) [of c iid token "Type resp" d'] r
      have "first_failure [emptiness_of (Type resp) d',
             mention_check c (InteractionResponseData.AllowedMentions d'),
             embed_check c embed_error_at ''sum of all text in embeds''
               (InteractionResponseData.Embeds d')] = None" by simp
      from Respond_pass [OF Some this, of iid token] Some show ?thesis
        by (simp add: Let_def)
    qed
    then show "after (RespondInteraction c iid token resp) =
        resp\<lparr>Data := map_option (normalize_data c) (Data resp)\<rparr>"
      and "sent (RespondInteraction c iid token resp) =
        [sendpart_POST (Response (resp\<lparr>Data := map_option (normalize_data c) (Data resp)\<rparr>))
           False (EndpointInteractions c @ ID_String c iid @ ''/'' @ token @ ''/callback'')]"
      by simp_all
  qed
next
  assume s: "sent (FollowUpInteraction c appID token d) \<noteq> []"
  from FollowUp_pass [OF sent_iff_no_failure(1) [OF s], of appID token]
  show "after (FollowUpInteraction c appID token d) = normalize_data c d"
    and "sent (FollowUpInteraction c appID token d) =
        [sendpart_POST (ResponseData (normalize_data c d)) True
           (EndpointWebhooks c @ ID_String c appID @ ''/'' @ token @ ''?'')]"
    by (simp_all add: Let_def)
next
  assume s: "sent (EditInteractionResponse c appID token ed) \<noteq> []"
  from EditResponse_pass [OF sent_iff_no_failure(3) [OF s], of appID token]
  show "after (EditInteractionResponse c appID token ed) = normalize_edit c ed"
    and "sent (EditInteractionResponse c appID token ed) =
        [sendpart_PATCH (EditData (normalize_edit c ed)) True
           (EndpointWebhooks c @ ID_String c appID @ ''/'' @ token @ ''/messages/@original'')]"
    by (simp_all add: Let_def)
next
  assume s: "sent (EditInteractionFollowup c appID messageID token ed) \<noteq> []"
  from EditFollowup_pass [OF sent_iff_no_failure(4) [OF s], of appID messageID token]
  show "after (EditInteractionFollowup c appID messageID token ed) = normalize_edit c ed"
    and "sent (EditInteractionFollowup c appID messageID token ed) =
        [sendpart_PATCH (EditData (normalize_edit c ed)) True
           (EndpointWebhooks c @ ID_String c appID @ ''/'' @ token @ ''/messages/'' @
            ID_String c messageID)]"
    by (simp_all add: Let_def)
next
  fix s :: "'e slice"
  show "len (map_slice (normalized c) s) = len s" by (cases s) (simp_all add: len_def)
  show "(map_slice (normalized c) s = Nil_slice) = (s = Nil_slice)" by (cases s) simp_all
  fix j assume "j < len s"
  then show "elems (map_slice (normalized c) s) ! j = normalized c (elems s ! j)"
    by (cases s) (simp_all add: len_def)
qed

lemma embed_check_passes:
  "embed_check c mk thing es = None \<longleftrightarrow> embeds_pass c es"
proof (cases es)
  case None
  then show ?thesis by (simp add: embed_check_def embeds_pass_def)
next
  case (Some s)
  obtain r s' where l: "embedLoop c mk thing 0 0 s = (r, s')"
    by (cases "embedLoop c mk thing 0 0 s")
  show ?thesis
  proof
    assume "embed_check c mk thing es = None"
    with Some l have "embedLoop c mk thing 0 0 s = (None, s')" by (simp add: embed_check_def)
    from embedLoop_None(2,3) [OF this] Some show "embeds_pass c es"
      by (simp add: embeds_pass_def)
  next
    assume "embeds_pass c es"
    with Some have "\<forall>e\<in>set (elems s). embed_ok c e" "within_budget 0 (embed_lengths c (elems s))"
      by (simp_all add: embeds_pass_def)
    from embedLoop_pass [OF this, of mk thing] Some show "embed_check c mk thing es = None"
      by (simp add: embed_check_def)
  qed
qed

text \<open>
  Claim C8. When the embed batch of an operation validates, the caller's payload differs
  from the one it passed in the embed list only: every entry of that list has been
  replaced, at its own index, by the embed as its validator returned it. The list keeps
  its length and its order, a nil list stays nil and an omitted list stays omitted; no
  other field of the payload has changed, and the payload that is sent is the same one.
  The success is said of the input alone: the checks before the loop pass, every embed
  passes its own validation and the running sums stay within 6000 (\<open>embeds_pass\<close>). It is
  also said of the outcome: whenever an operation has made its call, the embeds did pass
  and have been written back. \<open>d\<close> is the payload of \<^verbatim>\<open>RespondInteraction\<close> (with any
  response type \<open>t\<close>) and of \<^verbatim>\<open>FollowUpInteraction\<close>, \<open>ed\<close> that of the two edit operations.
\<close>

theorem embeds_written_back:
  fixes c :: "('a, 'e, 'f, 'x, 'i) env"
  shows
  "(emptiness_of t d = (None :: 'x error option) \<and>
    mention_check c (InteractionResponseData.AllowedMentions d) = None \<and>
    embeds_pass c (InteractionResponseData.Embeds d) \<longrightarrow>
      RespondInteraction c iid token \<lparr>Type = t, Data = Some d\<rparr> =
        \<lparr>ret = map_option External (fst (reply c
           (sendpart_POST (Response \<lparr>Type = t, Data = Some (normalize_data c d)\<rparr>) False
              (EndpointInteractions c @ ID_String c iid @ ''/'' @ token @ ''/callback'')))),
         after = \<lparr>Type = t, Data = Some (normalize_data c d)\<rparr>,
         sent = [sendpart_POST (Response \<lparr>Type = t, Data = Some (normalize_data c d)\<rparr>) False
              (EndpointInteractions c @ ID_String c iid @ ''/'' @ token @ ''/callback'')]\<rparr>) \<and>
   (emptiness_new d = (None :: 'x error option) \<and>
    mention_check c (InteractionResponseData.AllowedMentions d) = None \<and>
    embeds_pass c (InteractionResponseData.Embeds d) \<longrightarrow>
      after (FollowUpInteraction c appID token d) = normalize_data c d \<and>
      sent (FollowUpInteraction c appID token d) =
        [sendpart_POST (ResponseData (normalize_data c d)) True
           (EndpointWebhooks c @ ID_String c appID @ ''/'' @ token @ ''?'')]) \<and>
   (mention_check c (EditInteractionResponseData.AllowedMentions ed) = None \<and>
    embeds_pass c (EditInteractionResponseData.Embeds ed) \<longrightarrow>
      after (EditInteractionResponse c appID token ed) = normalize_edit c ed \<and>
      sent (EditInteractionResponse c appID token ed) =
        [sendpart_PATCH (EditData (normalize_edit c ed)) True
           (EndpointWebhooks c @ ID_String c appID @ ''/'' @ token @ ''/messages/@original'')] \<and>
      after (EditInteractionFollowup c appID messageID token ed) = normalize_edit c ed \<and>
      sent (EditInteractionFollowup c appID messageID token ed) =
        [sendpart_PATCH (EditData (normalize_edit c ed)) True
           (EndpointWebhooks c @ ID_String c appID @ ''/'' @ token @ ''/messages/'' @
            ID_String c messageID)]) \<and>
   (sent (RespondInteraction c iid token \<lparr>Type = t, Data = Some d\<rparr>) \<noteq> [] \<longrightarrow>
      embeds_pass c (InteractionResponseData.Embeds d) \<and>
      after (RespondInteraction c iid token \<lparr>Type = t, Data = Some d\<rparr>) =
        \<lparr>Type = t, Data = Some (normalize_data c d)\<rparr>) \<and>
   (sent (FollowUpInteraction c appID token d) \<noteq> [] \<longrightarrow>
      embeds_pass c (InteractionResponseData.Embeds d) \<and>
      after (FollowUpInteraction c appID token d) = normalize_data c d) \<and>
   (sent (EditInteractionResponse c appID token ed) \<noteq> [] \<longrightarrow>
      embeds_pass c (EditInteractionResponseData.Embeds ed) \<and>
      after (EditInteractionResponse c appID token ed) = normalize_edit c ed) \<and>
   (sent (EditInteractionFollowup c appID messageID token ed) \<noteq> [] \<longrightarrow>
      embeds_pass c (EditInteractionResponseData.Embeds ed) \<and>
      after (EditInteractionFollowup c appID messageID token ed) = normalize_edit c ed) \<and>
   normalize_data c d =
     d\<lparr>InteractionResponseData.Embeds :=
         map_option (map_slice (normalized c)) (InteractionResponseData.Embeds d)\<rparr> \<and>
   normalize_edit c ed =
     ed\<lparr>EditInteractionResponseData.Embeds :=
         map_option (map_slice (normalized c)) (EditInteractionResponseData.Embeds ed)\<rparr> \<and>
   (\<forall>s. len (map_slice (normalized c) s) = len s \<and>
        (\<forall>j<len s. elems (map_slice (normalized c) s) ! j = normalized c (elems s ! j)) \<and>
        (map_slice (normalized c) s = Nil_slice) = (s = Nil_slice))"
proof -
  let ?resp = "\<lparr>Type = t, Data = Some d\<rparr>"
  let ?at = "embed_check c embed_error_at ''sum of all text in embeds''
      (InteractionResponseData.Embeds d)"
  let ?plain = "embed_check c embed_error ''sum of text in embeds''
      (EditInteractionResponseData.Embeds ed)"
  have respond: "RespondInteraction c iid token ?resp =
        \<lparr>ret = map_option External (fst (reply c
           (sendpart_POST (Response \<lparr>Type = t, Data = Some (normalize_data c d)\<rparr>) False
              (EndpointInteractions c @ ID_String c iid @ ''/'' @ token @ ''/callback'')))),
         after = \<lparr>Type = t, Data = Some (normalize_data c d)\<rparr>,
         sent = [sendpart_POST (Response \<lparr>Type = t, Data = Some (normalize_data c d)\<rparr>) False
              (EndpointInteractions c @ ID_String c iid @ ''/'' @ token @ ''/callback'')]\<rparr>"
    if "emptiness_of t d = (None :: 'x error option) \<and>
      mention_check c (InteractionResponseData.AllowedMentions d) = None \<and>
      embeds_pass c (InteractionResponseData.Embeds d)"
  proof -
    from that have "first_failure [emptiness_of (Type ?resp) d,
        mention_check c (InteractionResponseData.AllowedMentions d), ?at] = None"
      by (simp add: embed_check_passes first_failure_single)
    from Respond_pass [of ?resp d c iid token, OF _ this] show ?thesis by (simp add: Let_def)
  qed
  have followup: "after (FollowUpInteraction c appID token d) = normalize_data c d \<and>
      sent (FollowUpInteraction c appID token d) =
        [sendpart_POST (ResponseData (normalize_data c d)) True
           (EndpointWebhooks c @ ID_String c appID @ ''/'' @ token @ ''?'')]"
    if "emptiness_new d = (None :: 'x error option) \<and>
      mention_check c (InteractionResponseData.AllowedMentions d) = None \<and>
      embeds_pass c (InteractionResponseData.Embeds d)"
  proof -
    from that have "first_failure [emptiness_new d,
        mention_check c (InteractionResponseData.AllowedMentions d), ?at] = None"
      by (simp add: embed_check_passes first_failure_single)
    from FollowUp_pass [OF this, of appID token] show ?thesis by (simp add: Let_def)
  qed
  have edit: "after (EditInteractionResponse c appID token ed) = normalize_edit c ed \<and>
      sent (EditInteractionResponse c appID token ed) =
        [sendpart_PATCH (EditData (normalize_edit c ed)) True
           (EndpointWebhooks c @ ID_String c appID @ ''/'' @ token @ ''/messages/@original'')] \<and>
      after (EditInteractionFollowup c appID messageID token ed) = normalize_edit c ed \<and>
      sent (EditInteractionFollowup c appID messageID token ed) =
        [sendpart_PATCH (EditData (normalize_edit c ed)) True
           (EndpointWebhooks c @ ID_String c appID @ ''/'' @ token @ ''/messages/'' @
            ID_String c messageID)]"
    if "mention_check c (EditInteractionResponseData.AllowedMentions ed) = None \<and>
      embeds_pass c (EditInteractionResponseData.Embeds ed)"
  proof -
    from that have "first_failure
        [mention_check c (EditInteractionResponseData.AllowedMentions ed), ?plain] = None"
      by (simp add: embed_check_passes first_failure_single)
    from EditResponse_pass [OF this, of appID token]
      EditFollowup_pass [OF this, of appID messageID token]
    show ?thesis by (simp add: Let_def)
  qed
  note wb = written_back_when_sent [where c = c and iid = iid and token = token and resp = ?resp
      and appID = appID and d = d and ed = ed and messageID = messageID]
  have passed: "embeds_pass c (InteractionResponseData.Embeds d)"
    if "first_failure [e, mention_check c (InteractionResponseData.AllowedMentions d), ?at] = None"
    for e :: "'x error option"
  proof -
    from that have "?at = None"
      by (cases e; cases "mention_check c (InteractionResponseData.AllowedMentions d)")
         (simp_all add: first_failure_single)
    then show ?thesis by (simp add: embed_check_passes)
  qed
  have passed_edit: "embeds_pass c (EditInteractionResponseData.Embeds ed)"
    if "first_failure [mention_check c (EditInteractionResponseData.AllowedMentions ed), ?plain]
      = None"
  proof -
    from that have "?plain = None"
      by (cases "mention_check c (EditInteractionResponseData.AllowedMentions ed)")
         (simp_all add: first_failure_single)
    then show ?thesis by (simp add: embed_check_passes)
  qed
  have s1: "embeds_pass c (InteractionResponseData.Embeds d) \<and>
      after (RespondInteraction c iid token ?resp) = \<lparr>Type = t, Data = Some (normalize_data c d)\<rparr>"
    if "sent (RespondInteraction c iid token ?resp) \<noteq> []"
    using that wb passed [OF sent_iff_no_failure(2) [OF that]] by simp
  have s2: "embeds_pass c (InteractionResponseData.Embeds d) \<and>
      after (FollowUpInteraction c appID token d) = normalize_data c d"
    if "sent (FollowUpInteraction c appID token d) \<noteq> []"
    using that wb passed [OF sent_iff_no_failure(1) [OF that]] by simp
  have s3: "embeds_pass c (EditInteractionResponseData.Embeds ed) \<and>
      after (EditInteractionResponse c appID token ed) = normalize_edit c ed"
    if "sent (EditInteractionResponse c appID token ed) \<noteq> []"
    using that wb passed_edit [OF sent_iff_no_failure(3) [OF that]] by simp
  have s4: "embeds_pass c (EditInteractionResponseData.Embeds ed) \<and>
      after (EditInteractionFollowup c appID messageID token ed) = normalize_edit c ed"
    if "sent (EditInteractionFollowup c appID messageID token ed) \<noteq> []"
    using that wb passed_edit [OF sent_iff_no_failure(4) [OF that]] by simp
  have shape: "\<forall>s. len (map_slice (normalized c) s) = len s \<and>
        (\<forall>j<len s. elems (map_slice (normalized c) s) ! j = normalized c (elems s ! j)) \<and>
        (map_slice (normalized c) s = Nil_slice) = (s = Nil_slice)"
    using wb by blast
  have n1: "normalize_data c d =
     d\<lparr>InteractionResponseData.Embeds :=
         map_option (map_slice (normalized c)) (InteractionResponseData.Embeds d)\<rparr>"
    by (simp add: normalize_data_def)
  have n2: "normalize_edit c ed =
     ed\<lparr>EditInteractionResponseData.Embeds :=
         map_option (map_slice (normalized c)) (EditInteractionResponseData.Embeds ed)\<rparr>"
    by (simp add: normalize_edit_def)
  show ?thesis
    apply (intro conjI impI)
                 apply (rule respond, assumption)
                apply (rule followup [THEN conjunct1], assumption)
               apply (rule followup [THEN conjunct2], assumption)
              apply (rule edit [THEN conjunct1], assumption)
             apply (rule edit [THEN conjunct2, THEN conjunct1], assumption)
            apply (rule edit [THEN conjunct2, THEN conjunct2, THEN conjunct1], assumption)
           apply (rule edit [THEN conjunct2, THEN conjunct2, THEN conjunct2], assumption)
          apply (rule s1 [THEN conjunct1], assumption)
         apply (rule s1 [THEN conjunct2], assumption)
        apply (rule s2 [THEN conjunct1], assumption)
       apply (rule s2 [THEN conjunct2], assumption)
      apply (rule s3 [THEN conjunct1], assumption)
     apply (rule s3 [THEN conjunct2], assumption)
    apply (rule s4 [THEN conjunct1], assumption)
       apply (rule s4 [THEN conjunct2], assumption)
      apply (rule n1)
     apply (rule n2)
    apply (rule shape)
    done
qed

lemma demo_embeds_pass:
  "embeds_pass demo_env
     (Some (Slice [demo_embed_of 10, \<lparr>text_len = 20, kind = ''image'', well_formed = True\<rparr>]))"
  by (simp add: embeds_pass_def embed_ok_def embed_lengths_def normalized_def demo_env_def
      demo_embed_of_def within_budget_Cons within_budget_Nil)

lemma demo_normalize:
  "normalize_data demo_env
     (demo_data k
        (Some (Slice [demo_embed_of 10, \<lparr>text_len = 20, kind = ''image'', well_formed = True\<rparr>]))
        m fs) =
   demo_data k
     (Some (Slice [\<lparr>text_len = 10, kind = ''rich'', well_formed = True\<rparr>,
                   \<lparr>text_len = 20, kind = ''image'', well_formed = True\<rparr>])) m fs"
  "normalize_edit demo_env
     (demo_edit k
        (Some (Slice [demo_embed_of 10, \<lparr>text_len = 20, kind = ''image'', well_formed = True\<rparr>]))
        m fs) =
   demo_edit k
     (Some (Slice [\<lparr>text_len = 10, kind = ''rich'', well_formed = True\<rparr>,
                   \<lparr>text_len = 20, kind = ''image'', well_formed = True\<rparr>])) m fs"
  by (simp_all add: normalize_data_def normalize_edit_def demo_data_def demo_edit_def
      normalized_def demo_env_def demo_embed_of_def)

theorem embeds_written_back_witness:
  "emptiness_of UpdateMessage
     (demo_data None
        (Some (Slice [demo_embed_of 10, \<lparr>text_len = 20, kind = ''image'', well_formed = True\<rparr>]))
        None Nil_slice) = (None :: string error option) \<and>
   emptiness_new
     (demo_data None
        (Some (Slice [demo_embed_of 10, \<lparr>text_len = 20, kind = ''image'', well_formed = True\<rparr>]))
        None Nil_slice) = (None :: string error option) \<and>
   mention_check demo_env (None :: bool option) = None \<and>
   embeds_pass demo_env
     (Some (Slice [demo_embed_of 10, \<lparr>text_len = 20, kind = ''image'', well_formed = True\<rparr>])) \<and>
   after (RespondInteraction demo_env ''7'' ''tok''
          \<lparr>Type = UpdateMessage,
           Data = Some (demo_data None
             (Some (Slice [demo_embed_of 10, \<lparr>text_len = 20, kind = ''image'', well_formed = True\<rparr>]))
             None Nil_slice)\<rparr>) =
     \<lparr>Type = UpdateMessage,
      Data = Some (demo_data None
        (Some (Slice [\<lparr>text_len = 10, kind = ''rich'', well_formed = True\<rparr>,
                      \<lparr>text_len = 20, kind = ''image'', well_formed = True\<rparr>]))
        None Nil_slice)\<rparr> \<and>
   after (FollowUpInteraction demo_env ''42'' ''tok''
          (demo_data None
             (Some (Slice [demo_embed_of 10, \<lparr>text_len = 20, kind = ''image'', well_formed = True\<rparr>]))
             None Nil_slice)) =
     demo_data None
        (Some (Slice [\<lparr>text_len = 10, kind = ''rich'', well_formed = True\<rparr>,
                      \<lparr>text_len = 20, kind = ''image'', well_formed = True\<rparr>]))
        None Nil_slice \<and>
   after (EditInteractionResponse demo_env ''42'' ''tok''
          (demo_edit None
             (Some (Slice [demo_embed_of 10, \<lparr>text_len = 20, kind = ''image'', well_formed = True\<rparr>]))
             None Nil_slice)) =
     demo_edit None
        (Some (Slice [\<lparr>text_len = 10, kind = ''rich'', well_formed = True\<rparr>,
                      \<lparr>text_len = 20, kind = ''image'', well_formed = True\<rparr>]))
        None Nil_slice \<and>
   after (EditInteractionFollowup demo_env ''42'' ''99'' ''tok''
          (demo_edit None
             (Some (Slice [demo_embed_of 10, \<lparr>text_len = 20, kind = ''image'', well_formed = True\<rparr>]))
             None Nil_slice)) =
     demo_edit None
        (Some (Slice [\<lparr>text_len = 10, kind = ''rich'', well_formed = True\<rparr>,
                      \<lparr>text_len = 20, kind = ''image'', well_formed = True\<rparr>]))
        None Nil_slice \<and>
   sent (EditInteractionFollowup demo_env ''42'' ''99'' ''tok''
          (demo_edit None
             (Some (Slice [demo_embed_of 10, \<lparr>text_len = 20, kind = ''image'', well_formed = True\<rparr>]))
             None Nil_slice)) =
     [sendpart_PATCH
        (EditData (demo_edit None
           (Some (Slice [\<lparr>text_len = 10, kind = ''rich'', well_formed = True\<rparr>,
                         \<lparr>text_len = 20, kind = ''image'', well_formed = True\<rparr>]))
           None Nil_slice))
        True ''https://host/api/webhooks/42/tok/messages/99'']"
proof -
  let ?es = "Some (Slice [demo_embed_of 10,
      \<lparr>text_len = 20, kind = ''image'', well_formed = True\<rparr>])"
  let ?d = "demo_data None ?es None Nil_slice"
  let ?ed = "demo_edit None ?es None Nil_slice"
  have e1: "emptiness_of UpdateMessage ?d = (None :: string error option)"
    and e2: "emptiness_new ?d = (None :: string error option)"
    by (simp_all add: emptiness_of_def emptiness_new_def emptiness_update_def demo_data_def
        len_def UpdateMessage_def MessageInteractionWithSource_def)
  have m: "mention_check demo_env (None :: bool option) = None"
    by (simp add: mention_check_def)
  have md: "mention_check demo_env (InteractionResponseData.AllowedMentions ?d) = None"
    "mention_check demo_env (EditInteractionResponseData.AllowedMentions ?ed) = None"
    by (rule demo_mentions_none)+
  have pd: "embeds_pass demo_env (InteractionResponseData.Embeds ?d)"
    "embeds_pass demo_env (EditInteractionResponseData.Embeds ?ed)"
    by (simp_all only: demo_embeds demo_embeds_pass)
  note w = embeds_written_back [where c = demo_env and d = ?d and ed = ?ed
      and t = UpdateMessage and iid = "''7''" and token = "''tok''" and appID = "''42''"
      and messageID = "''99''"]
  note respond = w [THEN conjunct1, THEN mp, OF conjI [OF e1 conjI [OF md(1) pd(1)]]]
  note followup = w [THEN conjunct2, THEN conjunct1, THEN mp, OF conjI [OF e2 conjI [OF md(1) pd(1)]]]
  note edit = w [THEN conjunct2, THEN conjunct2, THEN conjunct1, THEN mp, OF conjI [OF md(2) pd(2)]]
  have a1: "after (RespondInteraction demo_env ''7'' ''tok'' \<lparr>Type = UpdateMessage, Data = Some ?d\<rparr>) =
      \<lparr>Type = UpdateMessage, Data = Some (normalize_data demo_env ?d)\<rparr>"
    by (simp add: respond)
  have a2: "after (FollowUpInteraction demo_env ''42'' ''tok'' ?d) = normalize_data demo_env ?d"
    by (rule followup [THEN conjunct1])
  have a3: "after (EditInteractionResponse demo_env ''42'' ''tok'' ?ed) = normalize_edit demo_env ?ed"
    by (rule edit [THEN conjunct1])
  have a4: "after (EditInteractionFollowup demo_env ''42'' ''99'' ''tok'' ?ed) =
      normalize_edit demo_env ?ed"
    by (rule edit [THEN conjunct2, THEN conjunct2, THEN conjunct1])
  have a5: "sent (EditInteractionFollowup demo_env ''42'' ''99'' ''tok'' ?ed) =
      [sendpart_PATCH (EditData (normalize_edit demo_env ?ed)) True
         ''https://host/api/webhooks/42/tok/messages/99'']"
    using edit [THEN conjunct2, THEN conjunct2, THEN conjunct2] by (simp add: demo_routes)
  from e1 e2 m demo_embeds_pass a1 a2 a3 a4 a5 show ?thesis
    by (simp only: demo_normalize simp_thms)
qed

end
